theory Spec2Isabelle
  imports Complex_Main
begin

section \<open>The host: paths, file system, JSON values\<close>

text \<open>
  The program (\<^verbatim>\<open>src/utils/get-project-content.js\<close>) runs on Node and uses
  \<^verbatim>\<open>fs\<close>, \<^verbatim>\<open>path\<close>, \<^verbatim>\<open>glob\<close> and \<^verbatim>\<open>JSON\<close>. None of them is code of the
  repository, so the model takes what they deliver as the fields of a record \<open>host\<close>:
  the working directory, the file system as a function from absolute paths to entries, the
  names that glob's \<^verbatim>\<open>*\<close> yields for a directory (in glob's order; a name that glob
  hides, such as one with a leading dot, is not among them), what glob returns for a
  pattern whose directory part holds characters that are special to glob, and the two JSON
  functions. Every theorem below holds for every host. The file system does not change
  during a run.

  An absolute, normalised POSIX path is the list of its segments. The text of a file is
  the string that \<^verbatim>\<open>readFileSync(path, 'utf-8')\<close> returns for it.
\<close>

type_synonym path = "string list"

datatype json =
    JNull
  | JBool bool
  | JNum rat
  | JStr string
  | JArr "json list"
  | JObj "(string \<times> json) list"

text \<open>A JavaScript value read from parsed JSON: \<open>None\<close> is \<^verbatim>\<open>undefined\<close>.\<close>

type_synonym jsval = "json option"

datatype entry = File string | Directory

datatype error = ENOENT | EISDIR | SyntaxError | TypeError

text \<open>
  The directory part of the pattern that the program hands to \<^verbatim>\<open>glob.sync\<close>. It is
  text, and glob reads it as a pattern: \<^verbatim>\<open>path.join(basePath, 'src')\<close> for the base
  path as the caller wrote it (\<open>SrcOf\<close>), or the absolute path of a collection
  directory (\<open>Dir\<close>).
\<close>

datatype glob_dir = SrcOf string | Dir path

record host =
  cwd :: path
  fs_entry :: "path \<Rightarrow> entry option"
  glob_star :: "path \<Rightarrow> string list"
  glob_special :: "glob_dir \<Rightarrow> string \<Rightarrow> path list"
  JSON_parse :: "string \<Rightarrow> json option"
  JSON_stringify :: "json \<Rightarrow> string"

subsection \<open>Log entries and the trace of effects\<close>

datatype owner = Named json | Unnamed path

text \<open>
  The three message templates of the source, with the interpolated values kept as they are:
  \<^verbatim>\<open>Invalid ${directory}/<marker>, <label> ignored\<close>,
  \<^verbatim>\<open><label> ${metadata.name || directory}\<close> and
  \<^verbatim>\<open>File ${filePath} was not found\<close>.
\<close>

datatype log_entry =
    InvalidMarker path string string
  | EntityHeader string owner
  | FileNotFound jsval

datatype event =
    Glob glob_dir string
  | ReadFile path
  | Exists path
  | Log log_entry

text \<open>
  A computation yields the events it performed, in order, and either the exception that
  ended it (\<open>Inl\<close>) or its value (\<open>Inr\<close>).
\<close>

type_synonym 'a io = "event list \<times> (error + 'a)"

definition ret :: "'a \<Rightarrow> 'a io" where
  "ret x = ([], Inr x)"

definition throw :: "error \<Rightarrow> 'a io" where
  "throw e = ([], Inl e)"

definition bind :: "'a io \<Rightarrow> ('a \<Rightarrow> 'b io) \<Rightarrow> 'b io" where
  "bind m f =
     (case m of
        (evs, Inl e) \<Rightarrow> (evs, Inl e)
      | (evs, Inr x) \<Rightarrow> (case f x of (evs', r) \<Rightarrow> (evs @ evs', r)))"

text \<open>\<^verbatim>\<open>try { m } catch (error) { handler }\<close>.\<close>

definition try_catch :: "'a io \<Rightarrow> (error \<Rightarrow> 'a io) \<Rightarrow> 'a io" where
  "try_catch m handler =
     (case m of
        (evs, Inl e) \<Rightarrow> (case handler e of (evs', r) \<Rightarrow> (evs @ evs', r))
      | (evs, Inr x) \<Rightarrow> (evs, Inr x))"

text \<open>\<^verbatim>\<open>Array.prototype.map\<close> and \<^verbatim>\<open>Array.prototype.filter\<close> with a callback that
  has effects: the elements are visited from left to right, an exception ends the visit.\<close>

fun mapM :: "('a \<Rightarrow> 'b io) \<Rightarrow> 'a list \<Rightarrow> 'b list io" where
  "mapM f [] = ret []"
| "mapM f (x # xs) = bind (f x) (\<lambda>y. bind (mapM f xs) (\<lambda>ys. ret (y # ys)))"

fun filterM :: "('a \<Rightarrow> bool io) \<Rightarrow> 'a list \<Rightarrow> 'a list io" where
  "filterM p [] = ret []"
| "filterM p (x # xs) =
     bind (p x) (\<lambda>keep. bind (filterM p xs) (\<lambda>ys. ret (if keep then x # ys else ys)))"

fun logs :: "event list \<Rightarrow> log_entry list" where
  "logs [] = []"
| "logs (Log l # es) = l # logs es"
| "logs (_ # es) = logs es"

fun fs_accesses :: "event list \<Rightarrow> event list" where
  "fs_accesses [] = []"
| "fs_accesses (Log l # es) = fs_accesses es"
| "fs_accesses (e # es) = e # fs_accesses es"

text \<open>Modelled from the spec: the function \<^verbatim>\<open>log\<close> of \<^verbatim>\<open>src/utils/log.js\<close> is
  not among the sources. The spec describes it as emitting one log entry per call, as an
  observability side channel; it returns nothing and does not raise. Its second argument
  (the level and the \<^verbatim>\<open>newLine\<close> flag) is left out.\<close>

definition log_line :: "log_entry \<Rightarrow> unit io" where
  "log_line l = ([Log l], Inr ())"

subsection \<open>\<^verbatim>\<open>path\<close>\<close>

fun split_sep :: "string \<Rightarrow> string list" where
  "split_sep [] = [[]]"
| "split_sep (c # cs) =
     (if c = CHR ''/'' then [] # split_sep cs
      else (case split_sep cs of [] \<Rightarrow> [[c]] | s # ss \<Rightarrow> (c # s) # ss))"

definition apply_segment :: "path \<Rightarrow> string \<Rightarrow> path" where
  "apply_segment p s =
     (if s = [] \<or> s = ''.'' then p
      else if s = ''..'' then butlast p
      else p @ [s])"

text \<open>\<^verbatim>\<open>path.resolve(from, to)\<close> for an absolute \<open>from\<close> and a string \<open>to\<close>.\<close>

definition path_resolve :: "path \<Rightarrow> string \<Rightarrow> path" where
  "path_resolve from to =
     foldl apply_segment
       (if to \<noteq> [] \<and> hd to = CHR ''/'' then [] else from)
       (split_sep to)"

text \<open>\<^verbatim>\<open>path.basename\<close> of an absolute, normalised path.\<close>

definition basename :: "path \<Rightarrow> string" where
  "basename p = (if p = [] then [] else last p)"

text \<open>\<^verbatim>\<open>path.resolve(directory, x)\<close> where \<open>x\<close> comes from the metadata: Node raises a
  \<^verbatim>\<open>TypeError\<close> for an argument that is not a string.\<close>

definition resolve_value :: "path \<Rightarrow> jsval \<Rightarrow> path io" where
  "resolve_value directory x =
     (case x of
        Some (JStr s) \<Rightarrow> ret (path_resolve directory s)
      | _ \<Rightarrow> throw TypeError)"

subsection \<open>\<^verbatim>\<open>fs\<close> and \<^verbatim>\<open>glob\<close>\<close>

definition readFileSync :: "host \<Rightarrow> path \<Rightarrow> string io" where
  "readFileSync h p =
     (case fs_entry h p of
        Some (File c) \<Rightarrow> ([ReadFile p], Inr c)
      | Some Directory \<Rightarrow> ([ReadFile p], Inl EISDIR)
      | None \<Rightarrow> ([ReadFile p], Inl ENOENT))"

definition existsSync :: "host \<Rightarrow> path \<Rightarrow> bool io" where
  "existsSync h p = ([Exists p], Inr (fs_entry h p \<noteq> None))"

text \<open>
  The characters that glob (through minimatch) may read as part of a pattern rather than
  as themselves: wildcards, character classes, braces, the extended patterns, the comment
  sign and the escape. The last one is the backslash.
\<close>

definition special_chars :: "char list" where
  "special_chars = ''*?[]{}()!+@|#^'' @ [CHR 0x5C]"

fun has_special :: "glob_dir \<Rightarrow> bool" where
  "has_special (SrcOf basePath) = (\<exists>c \<in> set basePath. c \<in> set special_chars)"
| "has_special (Dir directory) =
     (\<exists>s \<in> set directory. \<exists>c \<in> set s. c \<in> set special_chars)"

text \<open>\<^verbatim>\<open>path.join(basePath, 'src')\<close>, made absolute against the working directory.\<close>

definition src_dir :: "host \<Rightarrow> string \<Rightarrow> path" where
  "src_dir h bp = path_resolve (path_resolve (cwd h) bp) ''src''"

text \<open>The directory that the text of a pattern's directory part names when it is read
  literally.\<close>

fun dir_of :: "host \<Rightarrow> glob_dir \<Rightarrow> path" where
  "dir_of h (SrcOf bp) = src_dir h bp"
| "dir_of h (Dir directory) = directory"

text \<open>
  What \<^verbatim>\<open>glob.sync(path.join(g, '*', marker))\<close> returns, as absolute paths. When the
  text of \<open>g\<close> has no special character, glob reads it literally: the matches are the
  paths \<open>g/n/marker\<close> that exist, for the names \<open>n\<close> that \<^verbatim>\<open>*\<close> yields in
  that directory. Otherwise glob reads \<open>g\<close> as a pattern, and the matches, which may lie
  in other directories, are what the host's glob returns.
\<close>

definition glob_matches :: "host \<Rightarrow> glob_dir \<Rightarrow> string \<Rightarrow> path list" where
  "glob_matches h g marker =
     (if has_special g then glob_special h g marker
      else map (\<lambda>n. dir_of h g @ [n, marker])
             (filter (\<lambda>n. fs_entry h (dir_of h g @ [n, marker]) \<noteq> None)
                (glob_star h (dir_of h g))))"

definition glob_sync :: "host \<Rightarrow> glob_dir \<Rightarrow> string \<Rightarrow> path list io" where
  "glob_sync h g marker = ([Glob g marker], Inr (glob_matches h g marker))"

subsection \<open>JavaScript values\<close>

text \<open>Property access \<^verbatim>\<open>value.key\<close> on a parsed JSON value, for the keys the program
  reads (\<^verbatim>\<open>name\<close> and the \<^verbatim>\<open>...Path\<close> fields, none of them a built-in property of
  strings, numbers, booleans or arrays): \<^verbatim>\<open>null\<close> raises, an object gives its own
  property, anything else \<^verbatim>\<open>undefined\<close>.\<close>

definition get_prop :: "json \<Rightarrow> string \<Rightarrow> jsval io" where
  "get_prop v key =
     (case v of
        JNull \<Rightarrow> throw TypeError
      | JObj kvs \<Rightarrow> ret (map_of kvs key)
      | _ \<Rightarrow> ret None)"

fun truthy :: "jsval \<Rightarrow> bool" where
  "truthy None = False"
| "truthy (Some JNull) = False"
| "truthy (Some (JBool b)) = b"
| "truthy (Some (JNum n)) = (n \<noteq> 0)"
| "truthy (Some (JStr s)) = (s \<noteq> [])"
| "truthy (Some (JArr _)) = True"
| "truthy (Some (JObj _)) = True"

text \<open>
  The string conversion of a template literal \<^verbatim>\<open>${v}\<close>, as far as it can raise. The
  values are parsed JSON, so nothing in them is callable: an object with an own
  \<^verbatim>\<open>toString\<close> key has no usable conversion and raises a \<^verbatim>\<open>TypeError\<close>; any
  other object prints through \<^verbatim>\<open>Object.prototype.toString\<close>; an array joins the
  conversions of its elements; everything else always prints.
\<close>

fun to_string_ok :: "json \<Rightarrow> bool" where
  "to_string_ok (JObj kvs) = (map_of kvs ''toString'' = None)"
| "to_string_ok (JArr vs) = (\<forall>v \<in> set vs. to_string_ok v)"
| "to_string_ok _ = True"

definition to_string :: "jsval \<Rightarrow> unit io" where
  "to_string v =
     (case v of
        None \<Rightarrow> ret ()
      | Some j \<Rightarrow> if to_string_ok j then ret () else throw TypeError)"

text \<open>\<^verbatim>\<open>metadata.name || directory\<close>, and its conversion to a string (a directory is
  a string already).\<close>

definition name_or :: "jsval \<Rightarrow> path \<Rightarrow> owner" where
  "name_or name directory =
     (case name of
        None \<Rightarrow> Unnamed directory
      | Some v \<Rightarrow> if truthy (Some v) then Named v else Unnamed directory)"

definition owner_to_string :: "owner \<Rightarrow> unit io" where
  "owner_to_string w = (case w of Named v \<Rightarrow> to_string (Some v) | Unnamed d \<Rightarrow> ret ())"

section \<open>The program\<close>

definition readJSONSync :: "host \<Rightarrow> path \<Rightarrow> json io" where
  "readJSONSync h jsonPath =
     bind (readFileSync h jsonPath)
       (\<lambda>text. case JSON_parse h text of None \<Rightarrow> throw SyntaxError | Some v \<Rightarrow> ret v)"

text \<open>
  Each of the four list functions of the source starts with the same chain: glob for the
  marker one level below a directory \<open>g\<close>, map each match to its directory
  (\<^verbatim>\<open>path.resolve(json, '..')\<close>), and filter with a callback that tries to read the
  marker and logs when that raises. The chains differ in the marker name and in the word of
  the log message only, which are the parameters \<open>marker\<close> and \<open>label\<close> here.
\<close>

definition marker_ok :: "host \<Rightarrow> string \<Rightarrow> string \<Rightarrow> path \<Rightarrow> bool io" where
  "marker_ok h marker label directory =
     try_catch
       (bind (readJSONSync h (path_resolve directory marker)) (\<lambda>_. ret True))
       (\<lambda>error. bind (log_line (InvalidMarker directory marker label)) (\<lambda>_. ret False))"

definition scan :: "host \<Rightarrow> glob_dir \<Rightarrow> string \<Rightarrow> string \<Rightarrow> path list io" where
  "scan h g marker label =
     bind (glob_sync h g marker)
       (\<lambda>jsons. filterM (marker_ok h marker label) (map (\<lambda>j. path_resolve j ''..'') jsons))"

subsection \<open>The data model\<close>

record IPageTemplateMetadata =
  name :: jsval
  pageTemplateDefinitionPath :: path

record IPageTemplate =
  slug :: string
  metadata :: IPageTemplateMetadata
  definitionData :: string

record IFragmentComposition =
  slug :: string
  metadata :: json
  definitionData :: string

record IFragment =
  slug :: string
  metadata :: json
  html :: string
  css :: string
  js :: string
  configuration :: string

record ICollection =
  slug :: string
  fragmentCollectionId :: string
  metadata :: json
  fragmentCompositions :: "IFragmentComposition list"
  fragments :: "IFragment list"

record IProject =
  basePath :: string
  project :: json
  collections :: "ICollection list"
  pageTemplates :: "IPageTemplate list"

subsection \<open>Fragments\<close>

text \<open>The closure \<^verbatim>\<open>readFile\<close> of \<^verbatim>\<open>_getCollectionFragments\<close> and of
  \<^verbatim>\<open>_getCollectionFragmentCompositions\<close>; \<open>label\<close> is \<^verbatim>\<open>Fragment\<close> in the first
  and \<^verbatim>\<open>Fragment composition\<close> in the second. The \<^verbatim>\<open>try\<close> block holds both the
  path resolution and the read. In the \<^verbatim>\<open>catch\<close> block each template literal is
  converted to a string before \<^verbatim>\<open>log\<close> is called with it, and nothing catches what
  that conversion raises.\<close>

definition readFile :: "host \<Rightarrow> string \<Rightarrow> path \<Rightarrow> json \<Rightarrow> jsval \<Rightarrow> string io" where
  "readFile h label directory meta filePath =
     try_catch
       (bind (resolve_value directory filePath) (readFileSync h))
       (\<lambda>error.
          bind (get_prop meta ''name'') (\<lambda>name.
          bind (owner_to_string (name_or name directory)) (\<lambda>_.
          bind (log_line (EntityHeader label (name_or name directory))) (\<lambda>_.
          bind (to_string filePath) (\<lambda>_.
          bind (log_line (FileNotFound filePath)) (\<lambda>_.
          ret []))))))"

definition getFramentConfiguration :: "host \<Rightarrow> path \<Rightarrow> jsval \<Rightarrow> string io" where
  "getFramentConfiguration h directory configurationPath =
     (if truthy configurationPath then
        bind (resolve_value directory configurationPath) (\<lambda>p.
        bind (existsSync h p) (\<lambda>found.
          if found then
            bind (resolve_value directory configurationPath) (readFileSync h)
          else ret []))
      else ret [])"

text \<open>The callback of the second \<^verbatim>\<open>map\<close> of \<^verbatim>\<open>_getCollectionFragments\<close>.\<close>

definition fragment_of :: "host \<Rightarrow> path \<Rightarrow> IFragment io" where
  "fragment_of h directory =
     bind (readJSONSync h (path_resolve directory ''fragment.json'')) (\<lambda>metadata.
     bind (get_prop metadata ''htmlPath'') (\<lambda>htmlPath.
     bind (readFile h ''Fragment'' directory metadata htmlPath) (\<lambda>html.
     bind (get_prop metadata ''cssPath'') (\<lambda>cssPath.
     bind (readFile h ''Fragment'' directory metadata cssPath) (\<lambda>css.
     bind (get_prop metadata ''jsPath'') (\<lambda>jsPath.
     bind (readFile h ''Fragment'' directory metadata jsPath) (\<lambda>js.
     bind (get_prop metadata ''configurationPath'') (\<lambda>configurationPath.
     bind (getFramentConfiguration h directory configurationPath) (\<lambda>configuration.
     ret \<lparr>IFragment.slug = basename directory,
          IFragment.metadata = metadata,
          html = html, css = css, js = js,
          configuration = configuration\<rparr>)))))))))"

definition getCollectionFragments :: "host \<Rightarrow> path \<Rightarrow> IFragment list io" where
  "getCollectionFragments h collectionDirectory =
     bind (scan h (Dir collectionDirectory) ''fragment.json'' ''fragment'')
       (mapM (fragment_of h))"

subsection \<open>Fragment compositions\<close>

definition composition_of :: "host \<Rightarrow> path \<Rightarrow> IFragmentComposition io" where
  "composition_of h directory =
     bind (readJSONSync h (path_resolve directory ''fragment-composition.json''))
       (\<lambda>metadata.
     bind (get_prop metadata ''fragmentCompositionDefinitionPath'') (\<lambda>definitionPath.
     bind (readFile h ''Fragment composition'' directory metadata definitionPath)
       (\<lambda>definitionData.
     ret \<lparr>IFragmentComposition.slug = basename directory,
          IFragmentComposition.metadata = metadata,
          IFragmentComposition.definitionData = definitionData\<rparr>)))"

definition getCollectionFragmentCompositions ::
  "host \<Rightarrow> path \<Rightarrow> IFragmentComposition list io" where
  "getCollectionFragmentCompositions h collectionDirectory =
     bind (scan h (Dir collectionDirectory) ''fragment-composition.json''
             ''fragment composition'')
       (mapM (composition_of h))"

subsection \<open>Collections\<close>

definition collection_of :: "host \<Rightarrow> path \<Rightarrow> ICollection io" where
  "collection_of h directory =
     bind (readJSONSync h (path_resolve directory ''collection.json'')) (\<lambda>metadata.
     bind (getCollectionFragmentCompositions h directory) (\<lambda>fragmentCompositions.
     bind (getCollectionFragments h directory) (\<lambda>fragments.
     ret \<lparr>ICollection.slug = basename directory,
          fragmentCollectionId = basename directory,
          ICollection.metadata = metadata,
          fragmentCompositions = fragmentCompositions,
          fragments = fragments\<rparr>)))"

definition getProjectCollections :: "host \<Rightarrow> string \<Rightarrow> ICollection list io" where
  "getProjectCollections h bp =
     bind (scan h (SrcOf bp) ''collection.json'' ''collection'')
       (mapM (collection_of h))"

subsection \<open>Page templates\<close>

definition page_template_of :: "host \<Rightarrow> path \<Rightarrow> IPageTemplate io" where
  "page_template_of h directory =
     bind (readJSONSync h (path_resolve directory ''page-template.json'')) (\<lambda>metadata.
     bind (get_prop metadata ''name'') (\<lambda>name.
     bind (readJSONSync h (path_resolve directory ''page-definition.json'')) (\<lambda>definition.
     ret \<lparr>IPageTemplate.slug = basename directory,
          IPageTemplate.metadata =
            \<lparr>name = name,
             pageTemplateDefinitionPath = path_resolve directory ''page-definition.json''\<rparr>,
          IPageTemplate.definitionData = JSON_stringify h definition\<rparr>)))"

definition getPageTemplates :: "host \<Rightarrow> string \<Rightarrow> IPageTemplate list io" where
  "getPageTemplates h bp =
     bind (scan h (SrcOf bp) ''page-template.json'' ''page template'')
       (mapM (page_template_of h))"

subsection \<open>The project\<close>

definition getProjectContent :: "host \<Rightarrow> string \<Rightarrow> IProject io" where
  "getProjectContent h bp =
     bind (readJSONSync h (path_resolve (path_resolve (cwd h) bp) ''package.json''))
       (\<lambda>project.
     bind (getProjectCollections h bp) (\<lambda>collections.
     bind (getPageTemplates h bp) (\<lambda>pageTemplates.
     ret \<lparr>basePath = bp, project = project,
          collections = collections, pageTemplates = pageTemplates\<rparr>)))"

section \<open>What a directory holds\<close>

text \<open>The parsed marker (or other JSON file) \<open>file\<close> of a directory, if there is one.\<close>

definition parsed :: "host \<Rightarrow> path \<Rightarrow> string \<Rightarrow> json option" where
  "parsed h directory file =
     (case fs_entry h (directory @ [file]) of
        Some (File text) \<Rightarrow> JSON_parse h text
      | _ \<Rightarrow> None)"

text \<open>The directories of glob's matches for a marker, in glob's order.\<close>

definition matched :: "host \<Rightarrow> glob_dir \<Rightarrow> string \<Rightarrow> path list" where
  "matched h g marker = map butlast (glob_matches h g marker)"

text \<open>The children of a directory that \<^verbatim>\<open>*\<close> yields and that hold the marker, in
  order.\<close>

definition children :: "host \<Rightarrow> path \<Rightarrow> string \<Rightarrow> path list" where
  "children h base marker =
     map (\<lambda>n. base @ [n])
       (filter (\<lambda>n. fs_entry h (base @ [n, marker]) \<noteq> None) (glob_star h base))"

text \<open>The matched directories whose marker parses.\<close>

definition valid_dirs :: "host \<Rightarrow> glob_dir \<Rightarrow> string \<Rightarrow> path list" where
  "valid_dirs h g marker =
     filter (\<lambda>d. parsed h d marker \<noteq> None) (matched h g marker)"

text \<open>The value of \<^verbatim>\<open>v.key\<close> for a \<open>v\<close> that is not \<^verbatim>\<open>null\<close>.\<close>

definition property :: "json \<Rightarrow> string \<Rightarrow> jsval" where
  "property v key = (case v of JObj kvs \<Rightarrow> map_of kvs key | _ \<Rightarrow> None)"

text \<open>The text of the regular file that a metadata value names, relative to a directory;
  empty when the value is not a string or names no regular file.\<close>

definition content :: "host \<Rightarrow> path \<Rightarrow> jsval \<Rightarrow> string" where
  "content h directory v =
     (case v of
        Some (JStr s) \<Rightarrow>
          (case fs_entry h (path_resolve directory s) of Some (File c) \<Rightarrow> c | _ \<Rightarrow> [])
      | _ \<Rightarrow> [])"

definition names_file :: "host \<Rightarrow> path \<Rightarrow> jsval \<Rightarrow> bool" where
  "names_file h directory v =
     (case v of
        Some (JStr s) \<Rightarrow>
          (case fs_entry h (path_resolve directory s) of Some (File c) \<Rightarrow> True | _ \<Rightarrow> False)
      | _ \<Rightarrow> False)"

text \<open>Whether the template literal of a value prints, and whether that of
  \<^verbatim>\<open>metadata.name || directory\<close> does.\<close>

definition prints :: "jsval \<Rightarrow> bool" where
  "prints v = (case v of None \<Rightarrow> True | Some j \<Rightarrow> to_string_ok j)"

definition name_prints :: "jsval \<Rightarrow> bool" where
  "name_prints v = (\<not> truthy v \<or> prints v)"

text \<open>Whether the content loader returns for the field \<open>key\<close> of the metadata \<open>m\<close>:
  the field names a regular file, or the two template literals of the \<^verbatim>\<open>catch\<close>
  block print.\<close>

definition loads :: "host \<Rightarrow> path \<Rightarrow> json \<Rightarrow> string \<Rightarrow> bool" where
  "loads h directory m key =
     (names_file h directory (property m key) \<or>
      (name_prints (property m ''name'') \<and> prints (property m key)))"

definition markers :: "string list" where
  "markers =
     [''collection.json'', ''fragment.json'', ''fragment-composition.json'',
      ''page-template.json'']"

text \<open>The fragment that a directory with marker metadata \<open>m\<close> yields when the
  configuration read returns \<open>c\<close>.\<close>

definition fragment_value :: "host \<Rightarrow> path \<Rightarrow> json \<Rightarrow> string \<Rightarrow> IFragment" where
  "fragment_value h d m c =
     \<lparr>IFragment.slug = basename d, IFragment.metadata = m,
      html = content h d (property m ''htmlPath''),
      css = content h d (property m ''cssPath''),
      js = content h d (property m ''jsPath''),
      configuration = c\<rparr>"

text \<open>The fragment composition that a directory with marker metadata \<open>m\<close> yields.\<close>

definition composition_value :: "host \<Rightarrow> path \<Rightarrow> json \<Rightarrow> IFragmentComposition" where
  "composition_value h d m =
     \<lparr>IFragmentComposition.slug = basename d, IFragmentComposition.metadata = m,
      IFragmentComposition.definitionData =
        content h d (property m ''fragmentCompositionDefinitionPath'')\<rparr>"

text \<open>The page template that a directory yields, for marker metadata \<open>m\<close> and parsed
  definition \<open>j\<close>.\<close>

definition page_template_value :: "host \<Rightarrow> path \<Rightarrow> json \<Rightarrow> json \<Rightarrow> IPageTemplate" where
  "page_template_value h d m j =
     \<lparr>IPageTemplate.slug = basename d,
      IPageTemplate.metadata =
        \<lparr>name = property m ''name'',
         pageTemplateDefinitionPath = d @ [''page-definition.json'']\<rparr>,
      IPageTemplate.definitionData = JSON_stringify h j\<rparr>"

text \<open>The collection that a directory yields, for marker metadata \<open>m\<close> and the two
  sequences of its children.\<close>

definition collection_value ::
  "path \<Rightarrow> json \<Rightarrow> IFragmentComposition list \<Rightarrow> IFragment list \<Rightarrow> ICollection" where
  "collection_value d m gs fs =
     \<lparr>ICollection.slug = basename d, fragmentCollectionId = basename d,
      ICollection.metadata = m, fragmentCompositions = gs, fragments = fs\<rparr>"

section \<open>An example project\<close>

text \<open>
  A small project tree, used to run the program on concrete inputs:
  \<^verbatim>\<open>
  /work/proj/package.json
  /work/proj/src/bad/collection.json          (not JSON)
  /work/proj/src/cards/collection.json
  /work/proj/src/cards/page-template.json
  /work/proj/src/cards/page-definition.json
  /work/proj/src/cards/broken/fragment.json   (not JSON)
  /work/proj/src/cards/hero/fragment.json
  /work/proj/src/cards/hero/styles.css
  /work/proj/src/cards/hero/fragment-composition.json
  /work/proj/src/cards/plain/fragment.json    (the empty object)
  \<close>
  The working directory is \<^verbatim>\<open>/work\<close> and the base path \<^verbatim>\<open>proj\<close>. The fragment
  \<^verbatim>\<open>hero\<close> names \<^verbatim>\<open>index.html\<close>, \<^verbatim>\<open>styles.css\<close> and \<^verbatim>\<open>config.json\<close>, of
  which only the style sheet exists. \<open>demo_parse\<close> and \<open>demo_stringify\<close> are the values
  of \<^verbatim>\<open>JSON.parse\<close> and \<^verbatim>\<open>JSON.stringify\<close> on the texts and values that occur
  here; the text of the \<^verbatim>\<open>hero\<close> marker is abbreviated to \<^verbatim>\<open>hero.json\<close>. No
  path of the example has a character that is special to glob, so that glob reads every
  pattern literally and \<open>glob_special\<close> is never asked.
\<close>

definition src :: path where
  "src = [''work'', ''proj'', ''src'']"

definition cards :: path where
  "cards = [''work'', ''proj'', ''src'', ''cards'']"

definition hero :: path where
  "hero = [''work'', ''proj'', ''src'', ''cards'', ''hero'']"

definition plain :: path where
  "plain = [''work'', ''proj'', ''src'', ''cards'', ''plain'']"

definition hero_meta :: json where
  "hero_meta =
     JObj [(''name'', JStr ''Hero''), (''htmlPath'', JStr ''index.html''),
           (''cssPath'', JStr ''styles.css''), (''configurationPath'', JStr ''config.json'')]"

definition demo_files :: "(path \<times> entry) list" where
  \<open>demo_files =
    [([''work''], Directory),
     ([''work'', ''proj''], Directory),
     ([''work'', ''proj'', ''package.json''], File ''{"name":"proj"}''),
     (src, Directory),
     (src @ [''bad''], Directory),
     (src @ [''bad'', ''collection.json''], File ''{oops''),
     (cards, Directory),
     (cards @ [''collection.json''], File ''{"name":"Cards"}''),
     (cards @ [''page-template.json''], File ''{"name":"Cards page"}''),
     (cards @ [''page-definition.json''], File ''{ "x" : 1 }''),
     (cards @ [''broken''], Directory),
     (cards @ [''broken'', ''fragment.json''], File ''{oops''),
     (hero, Directory),
     (hero @ [''fragment.json''], File ''hero.json''),
     (hero @ [''styles.css''], File ''.hero{}''),
     (hero @ [''fragment-composition.json''], File ''{}''),
     (plain, Directory),
     (plain @ [''fragment.json''], File ''{}'')]\<close>

definition demo_star :: "(path \<times> string list) list" where
  "demo_star = [(src, [''bad'', ''cards'']), (cards, [''broken'', ''hero'', ''plain''])]"

definition demo_parse :: "(string \<times> json) list" where
  \<open>demo_parse =
    [(''{"name":"proj"}'', JObj [(''name'', JStr ''proj'')]),
     (''{"name":"Cards"}'', JObj [(''name'', JStr ''Cards'')]),
     (''{"name":"Cards page"}'', JObj [(''name'', JStr ''Cards page'')]),
     (''{ "x" : 1 }'', JObj [(''x'', JNum 1)]),
     (''hero.json'', hero_meta),
     (''{}'', JObj [])]\<close>

definition demo_stringify :: "json \<Rightarrow> string" where
  \<open>demo_stringify v = (if v = JObj [(''x'', JNum 1)] then ''{"x":1}'' else ''null'')\<close>

definition demo :: host where
  "demo = \<lparr>cwd = [''work''], fs_entry = map_of demo_files,
           glob_star = (\<lambda>p. case map_of demo_star p of None \<Rightarrow> [] | Some ns \<Rightarrow> ns),
           glob_special = (\<lambda>g marker. []),
           JSON_parse = map_of demo_parse, JSON_stringify = demo_stringify\<rparr>"

definition hero_fragment :: IFragment where
  "hero_fragment =
     \<lparr>IFragment.slug = ''hero'', IFragment.metadata = hero_meta,
      html = [], css = ''.hero{}'', js = [], configuration = []\<rparr>"

definition plain_fragment :: IFragment where
  "plain_fragment =
     \<lparr>IFragment.slug = ''plain'', IFragment.metadata = JObj [],
      html = [], css = [], js = [], configuration = []\<rparr>"

definition hero_composition :: IFragmentComposition where
  "hero_composition =
     \<lparr>IFragmentComposition.slug = ''hero'', IFragmentComposition.metadata = JObj [],
      IFragmentComposition.definitionData = []\<rparr>"

definition cards_collection :: ICollection where
  "cards_collection =
     \<lparr>ICollection.slug = ''cards'', fragmentCollectionId = ''cards'',
      ICollection.metadata = JObj [(''name'', JStr ''Cards'')],
      fragmentCompositions = [hero_composition],
      fragments = [hero_fragment, plain_fragment]\<rparr>"

definition cards_template :: IPageTemplate where
  \<open>cards_template =
     \<lparr>IPageTemplate.slug = ''cards'',
      IPageTemplate.metadata =
        \<lparr>name = Some (JStr ''Cards page''),
         pageTemplateDefinitionPath = cards @ [''page-definition.json'']\<rparr>,
      IPageTemplate.definitionData = ''{"x":1}''\<rparr>\<close>

definition demo_project :: IProject where
  "demo_project =
     \<lparr>basePath = ''proj'', project = JObj [(''name'', JStr ''proj'')],
      collections = [cards_collection], pageTemplates = [cards_template]\<rparr>"

text \<open>Variants of the example: the missing \<^verbatim>\<open>index.html\<close> present; the
  configuration file present; a directory in its place; the page definition missing; no
  directory below \<^verbatim>\<open>src\<close>; another working directory, where there is no
  \<^verbatim>\<open>package.json\<close>; the marker of \<^verbatim>\<open>hero\<close> with the object
  \<^verbatim>\<open>{"toString": 0}\<close> as its name, the style sheet as both \<^verbatim>\<open>cssPath\<close> and
  \<^verbatim>\<open>jsPath\<close> and no \<^verbatim>\<open>configurationPath\<close>, with and without \<^verbatim>\<open>index.html\<close>;
  and a collection directory \<^verbatim>\<open>/work/a[b]\<close>, which glob reads as a pattern that
  matches \<^verbatim>\<open>/work/ab\<close>, where one fragment lies.\<close>

definition demo_html :: host where
  "demo_html = demo\<lparr>fs_entry := (fs_entry demo)(hero @ [''index.html''] \<mapsto> File ''<p>Hero</p>'')\<rparr>"

definition demo_configured :: host where
  \<open>demo_configured =
     demo\<lparr>fs_entry :=
       (fs_entry demo)(hero @ [''config.json''] \<mapsto> File ''{"fieldSets":[]}'')\<rparr>\<close>

definition demo_config_directory :: host where
  "demo_config_directory =
     demo\<lparr>fs_entry := (fs_entry demo)(hero @ [''config.json''] \<mapsto> Directory)\<rparr>"

definition demo_no_definition :: host where
  "demo_no_definition =
     demo\<lparr>fs_entry := (fs_entry demo)(cards @ [''page-definition.json''] := None)\<rparr>"

definition demo_empty :: host where
  "demo_empty = demo\<lparr>glob_star := (\<lambda>p. [])\<rparr>"

definition demo_elsewhere :: host where
  "demo_elsewhere = demo\<lparr>cwd := [''elsewhere'']\<rparr>"

definition odd_meta :: json where
  "odd_meta =
     JObj [(''name'', JObj [(''toString'', JNum 0)]), (''htmlPath'', JStr ''index.html''),
           (''cssPath'', JStr ''styles.css''), (''jsPath'', JStr ''styles.css'')]"

definition demo_odd_name :: host where
  "demo_odd_name = demo\<lparr>JSON_parse := (JSON_parse demo)(''hero.json'' \<mapsto> odd_meta)\<rparr>"

definition demo_odd_name_html :: host where
  "demo_odd_name_html =
     demo_odd_name\<lparr>fs_entry :=
       (fs_entry demo_odd_name)(hero @ [''index.html''] \<mapsto> File ''<p>Hero</p>'')\<rparr>"

definition demo_brackets :: host where
  "demo_brackets =
     demo\<lparr>fs_entry :=
            (fs_entry demo)([''work'', ''ab'', ''other'', ''fragment.json''] \<mapsto> File ''{}''),
          glob_special :=
            (\<lambda>g marker.
               if g = Dir [''work'', ''a[b]''] \<and> marker = ''fragment.json''
               then [[''work'', ''ab'', ''other'', ''fragment.json'']] else [])\<rparr>"

section \<open>Lemmas\<close>

subsection \<open>Computations\<close>

lemma snd_ret: "snd (ret x) = Inr x"
  by (simp add: ret_def)

lemma fst_ret: "fst (ret x) = []"
  by (simp add: ret_def)

lemma snd_throw: "snd (throw e) = Inl e"
  by (simp add: throw_def)

lemma fst_throw: "fst (throw e) = []"
  by (simp add: throw_def)

lemma snd_log_line: "snd (log_line l) = Inr ()"
  by (simp add: log_line_def)

lemma fst_log_line: "fst (log_line l) = [Log l]"
  by (simp add: log_line_def)

lemma snd_bind:
  "snd (bind m f) = (case snd m of Inl e \<Rightarrow> Inl e | Inr x \<Rightarrow> snd (f x))"
  by (cases m) (simp add: bind_def split: sum.splits prod.splits)

lemma fst_bind:
  "fst (bind m f) = (case snd m of Inl e \<Rightarrow> fst m | Inr x \<Rightarrow> fst m @ fst (f x))"
  by (cases m) (simp add: bind_def split: sum.splits prod.splits)

lemma snd_try_catch:
  "snd (try_catch m handler) = (case snd m of Inl e \<Rightarrow> snd (handler e) | Inr x \<Rightarrow> Inr x)"
  by (cases m) (simp add: try_catch_def split: sum.splits prod.splits)

lemma fst_try_catch:
  "fst (try_catch m handler) =
     (case snd m of Inl e \<Rightarrow> fst m @ fst (handler e) | Inr x \<Rightarrow> fst m)"
  by (cases m) (simp add: try_catch_def split: sum.splits prod.splits)

lemma snd_bind_eq_Inr:
  "snd (bind m f) = Inr y \<longleftrightarrow> (\<exists>x. snd m = Inr x \<and> snd (f x) = Inr y)"
  by (simp add: snd_bind split: sum.splits)

lemma bind_ret: "bind (ret x) f = f x"
  by (cases "f x") (simp add: bind_def ret_def)

lemma logs_append: "logs (xs @ ys) = logs xs @ logs ys"
  by (induction xs rule: logs.induct) simp_all

lemma fs_accesses_append: "fs_accesses (xs @ ys) = fs_accesses xs @ fs_accesses ys"
  by (induction xs rule: fs_accesses.induct) simp_all

lemma snd_mapM_Inr:
  "snd (mapM f xs) = Inr ys \<longleftrightarrow> list_all2 (\<lambda>x y. snd (f x) = Inr y) xs ys"
proof (induction xs arbitrary: ys)
  case Nil
  show ?case by (auto simp: snd_ret)
next
  case (Cons x xs)
  show ?case
    by (cases ys) (auto simp: snd_bind_eq_Inr snd_ret Cons.IH list_all2_Cons1)
qed

lemma snd_filterM:
  "(\<And>x. x \<in> set xs \<Longrightarrow> snd (p x) = Inr (q x)) \<Longrightarrow> snd (filterM p xs) = Inr (filter q xs)"
  by (induction xs) (simp_all add: snd_bind snd_ret)

lemma logs_filterM:
  "(\<And>x. x \<in> set xs \<Longrightarrow> snd (p x) = Inr (q x)) \<Longrightarrow>
   logs (fst (filterM p xs)) = concat (map (\<lambda>x. logs (fst (p x))) xs)"
proof (induction xs)
  case Nil
  show ?case by (simp add: fst_ret)
next
  case (Cons a xs)
  have "snd (filterM p xs) = Inr (filter q xs)"
    using Cons.prems by (intro snd_filterM) simp
  then show ?case
    using Cons by (simp add: fst_bind snd_bind fst_ret logs_append)
qed

lemma not_Inr_is_Inl: "(\<And>y. r \<noteq> Inr y) \<Longrightarrow> \<exists>e. r = Inl e"
  by (cases r) auto

lemma list_all2_left: "list_all2 P xs ys \<Longrightarrow> x \<in> set xs \<Longrightarrow> \<exists>y \<in> set ys. P x y"
  by (induction xs ys rule: list_all2_induct) auto

subsection \<open>Paths, files and markers\<close>

lemma path_resolve_parent: "path_resolve p ''..'' = butlast p"
  by (simp add: path_resolve_def apply_segment_def)

lemma path_resolve_marker:
  "marker \<in> set markers \<Longrightarrow> path_resolve d marker = d @ [marker]"
  by (auto simp: markers_def path_resolve_def apply_segment_def)

lemma path_resolve_files:
  "path_resolve d ''page-definition.json'' = d @ [''page-definition.json'']"
  "path_resolve d ''package.json'' = d @ [''package.json'']"
  "path_resolve d ''src'' = d @ [''src'']"
  "path_resolve d ''collection.json'' = d @ [''collection.json'']"
  "path_resolve d ''fragment.json'' = d @ [''fragment.json'']"
  "path_resolve d ''fragment-composition.json'' = d @ [''fragment-composition.json'']"
  "path_resolve d ''page-template.json'' = d @ [''page-template.json'']"
  by (simp_all add: path_resolve_def apply_segment_def)

lemma snd_readFileSync:
  "snd (readFileSync h p) =
     (case fs_entry h p of Some (File c) \<Rightarrow> Inr c | Some Directory \<Rightarrow> Inl EISDIR
      | None \<Rightarrow> Inl ENOENT)"
  by (simp add: readFileSync_def split: option.splits entry.splits)

lemma fst_readFileSync: "fst (readFileSync h p) = [ReadFile p]"
  by (simp add: readFileSync_def split: option.splits entry.splits)

lemma snd_readJSONSync_Inr:
  "snd (readJSONSync h (d @ [f])) = Inr v \<longleftrightarrow> parsed h d f = Some v"
  by (auto simp: readJSONSync_def parsed_def snd_bind snd_readFileSync snd_ret snd_throw
           split: option.splits entry.splits)

lemma snd_readJSONSync_Inl:
  "(\<exists>e. snd (readJSONSync h (d @ [f])) = Inl e) \<longleftrightarrow> parsed h d f = None"
  by (auto simp: readJSONSync_def parsed_def snd_bind snd_readFileSync snd_ret snd_throw
           split: option.splits entry.splits)

lemma fst_readJSONSync: "fst (readJSONSync h p) = [ReadFile p]"
  by (simp add: readJSONSync_def fst_bind fst_readFileSync fst_ret fst_throw
           split: sum.splits option.splits)

lemma snd_readJSONSync_cases:
  obtains (ok) v where "parsed h d f = Some v" "snd (readJSONSync h (d @ [f])) = Inr v"
        | (fail) e where "parsed h d f = None" "snd (readJSONSync h (d @ [f])) = Inl e"
proof (cases "parsed h d f")
  case None
  then show ?thesis using fail snd_readJSONSync_Inl [of h d f] by blast
next
  case (Some v)
  then show ?thesis using ok snd_readJSONSync_Inr [of h d f v] by blast
qed

lemma snd_marker_ok:
  assumes "marker \<in> set markers"
  shows "snd (marker_ok h marker label d) = Inr (parsed h d marker \<noteq> None)"
proof (cases "parsed h d marker")
  case None
  then obtain e where "snd (readJSONSync h (d @ [marker])) = Inl e"
    using snd_readJSONSync_Inl by blast
  then show ?thesis
    using None assms
    by (simp add: marker_ok_def snd_try_catch fst_try_catch path_resolve_marker snd_bind snd_ret snd_log_line)
next
  case (Some v)
  then have "snd (readJSONSync h (d @ [marker])) = Inr v"
    by (simp add: snd_readJSONSync_Inr)
  then show ?thesis
    using Some assms
    by (simp add: marker_ok_def snd_try_catch fst_try_catch path_resolve_marker snd_bind snd_ret)
qed

lemma logs_marker_ok:
  assumes "marker \<in> set markers"
  shows "logs (fst (marker_ok h marker label d)) =
           (if parsed h d marker \<noteq> None then [] else [InvalidMarker d marker label])"
proof (cases "parsed h d marker")
  case None
  then obtain e where "snd (readJSONSync h (d @ [marker])) = Inl e"
    using snd_readJSONSync_Inl by blast
  then show ?thesis
    using None assms
    by (simp add: marker_ok_def snd_try_catch fst_try_catch path_resolve_marker snd_bind fst_bind
         fst_readJSONSync fst_ret fst_log_line snd_log_line logs_append)
next
  case (Some v)
  then have "snd (readJSONSync h (d @ [marker])) = Inr v"
    by (simp add: snd_readJSONSync_Inr)
  then show ?thesis
    using Some assms
    by (simp add: marker_ok_def snd_try_catch fst_try_catch path_resolve_marker snd_bind fst_bind
         fst_readJSONSync fst_ret snd_ret)
qed

lemma scan_filterM:
  "scan h g marker label =
     bind ([Glob g marker], Inr ())
       (\<lambda>_. filterM (marker_ok h marker label) (matched h g marker))"
  by (simp add: scan_def glob_sync_def bind_def matched_def path_resolve_parent)

lemma matched_literal:
  "\<not> has_special g \<Longrightarrow> matched h g marker = children h (dir_of h g) marker"
  by (simp add: matched_def glob_matches_def children_def comp_def butlast_append)

lemma snd_scan:
  assumes "marker \<in> set markers"
  shows "snd (scan h g marker label) = Inr (valid_dirs h g marker)"
proof -
  have "snd (filterM (marker_ok h marker label) ds) =
          Inr (filter (\<lambda>d. parsed h d marker \<noteq> None) ds)" for ds
    by (rule snd_filterM) (rule snd_marker_ok [OF assms])
  then show ?thesis
    by (simp only: scan_filterM snd_bind valid_dirs_def snd_conv sum.case)
qed

lemma logs_scan:
  assumes "marker \<in> set markers"
  shows "logs (fst (scan h g marker label)) =
           map (\<lambda>d. InvalidMarker d marker label)
             (filter (\<lambda>d. parsed h d marker = None) (matched h g marker))"
proof -
  have "logs (fst (filterM (marker_ok h marker label) ds)) =
          concat (map (\<lambda>d. logs (fst (marker_ok h marker label d))) ds)" for ds
    by (rule logs_filterM [where q = "\<lambda>d. parsed h d marker \<noteq> None"])
       (rule snd_marker_ok [OF assms])
  moreover have "concat (map (\<lambda>d. logs (fst (marker_ok h marker label d))) ds) =
      map (\<lambda>d. InvalidMarker d marker label) (filter (\<lambda>d. parsed h d marker = None) ds)"
    for ds
    by (induction ds) (simp_all add: logs_marker_ok [OF assms])
  ultimately show ?thesis
    by (simp add: scan_filterM fst_bind logs_append)
qed

lemma markers_mem:
  "''collection.json'' \<in> set markers" "''fragment.json'' \<in> set markers"
  "''fragment-composition.json'' \<in> set markers" "''page-template.json'' \<in> set markers"
  by (simp_all add: markers_def)

lemma valid_dirs_mem:
  "d \<in> set (valid_dirs h g marker) \<longleftrightarrow>
     d \<in> set (matched h g marker) \<and> parsed h d marker \<noteq> None"
  by (simp add: valid_dirs_def)

subsection \<open>The content loader and the configuration\<close>

lemma get_prop_obj: "v \<noteq> JNull \<Longrightarrow> get_prop v key = ret (property v key)"
  by (cases v) (simp_all add: get_prop_def property_def)

lemma get_prop_null: "get_prop JNull key = throw TypeError"
  by (simp add: get_prop_def)

lemma snd_resolve_value:
  "snd (resolve_value d v) =
     (case v of Some (JStr s) \<Rightarrow> Inr (path_resolve d s) | _ \<Rightarrow> Inl TypeError)"
  by (simp add: resolve_value_def snd_ret snd_throw split: option.splits json.splits)

lemma fst_resolve_value: "fst (resolve_value d v) = []"
  by (simp add: resolve_value_def fst_ret fst_throw split: option.splits json.splits)

lemma snd_to_string: "snd (to_string v) = (if prints v then Inr () else Inl TypeError)"
  by (simp add: to_string_def prints_def snd_ret snd_throw split: option.splits)

lemma fst_to_string: "fst (to_string v) = []"
  by (simp add: to_string_def fst_ret fst_throw split: option.splits)

lemma snd_owner_to_string:
  "snd (owner_to_string (name_or v d)) = (if name_prints v then Inr () else Inl TypeError)"
  by (cases v)
     (simp_all add: owner_to_string_def name_or_def name_prints_def snd_to_string snd_ret)

lemma fst_owner_to_string: "fst (owner_to_string w) = []"
  by (simp add: owner_to_string_def fst_to_string fst_ret split: owner.splits)

text \<open>The \<^verbatim>\<open>try\<close> block of the content loader and its \<^verbatim>\<open>catch\<close> block, each
  on its own.\<close>

lemma snd_attempt:
  "snd (bind (resolve_value d v) (readFileSync h)) = Inr c \<longleftrightarrow>
     names_file h d v \<and> c = content h d v"
  by (auto simp: names_file_def content_def snd_bind snd_resolve_value snd_readFileSync
        split: option.splits json.splits entry.splits)

lemma fst_attempt:
  "fst (bind (resolve_value d v) (readFileSync h)) =
     (case v of Some (JStr s) \<Rightarrow> [ReadFile (path_resolve d s)] | _ \<Rightarrow> [])"
  by (simp add: fst_bind snd_resolve_value fst_resolve_value fst_readFileSync
        split: option.splits json.splits)

lemma snd_handler:
  assumes "meta \<noteq> JNull"
  shows "snd (bind (get_prop meta ''name'') (\<lambda>name.
          bind (owner_to_string (name_or name d)) (\<lambda>_.
          bind (log_line (EntityHeader label (name_or name d))) (\<lambda>_.
          bind (to_string v) (\<lambda>_.
          bind (log_line (FileNotFound v)) (\<lambda>_.
          ret [])))))) =
         (if name_prints (property meta ''name'') \<and> prints v then Inr [] else Inl TypeError)"
  using assms
  by (simp add: get_prop_obj bind_ret snd_bind snd_owner_to_string snd_log_line
        snd_to_string snd_ret)

lemma fst_handler:
  assumes "meta \<noteq> JNull"
  shows "fst (bind (get_prop meta ''name'') (\<lambda>name.
          bind (owner_to_string (name_or name d)) (\<lambda>_.
          bind (log_line (EntityHeader label (name_or name d))) (\<lambda>_.
          bind (to_string v) (\<lambda>_.
          bind (log_line (FileNotFound v)) (\<lambda>_.
          ret [])))))) =
         (if \<not> name_prints (property meta ''name'') then []
          else if prints v
            then [Log (EntityHeader label (name_or (property meta ''name'') d)),
                  Log (FileNotFound v)]
          else [Log (EntityHeader label (name_or (property meta ''name'') d))])"
  using assms
  by (simp add: get_prop_obj bind_ret snd_bind fst_bind snd_owner_to_string
        fst_owner_to_string snd_log_line fst_log_line snd_to_string fst_to_string fst_ret)

lemma snd_readFile:
  assumes "meta \<noteq> JNull"
  shows "snd (readFile h label d meta v) =
           (if names_file h d v then Inr (content h d v)
            else if name_prints (property meta ''name'') \<and> prints v then Inr []
            else Inl TypeError)"
proof (cases "snd (bind (resolve_value d v) (readFileSync h))")
  case (Inl e)
  then have "\<not> names_file h d v"
    using snd_attempt [of d v h "content h d v"] by auto
  with Inl show ?thesis
    by (simp add: readFile_def snd_try_catch snd_handler [OF assms])
next
  case (Inr c)
  then have "names_file h d v \<and> c = content h d v"
    by (simp add: snd_attempt)
  with Inr show ?thesis
    by (simp add: readFile_def snd_try_catch)
qed

lemma snd_readFile_loads:
  assumes "m \<noteq> JNull"
  shows "snd (readFile h label d m (property m key)) =
           (if loads h d m key then Inr (content h d (property m key)) else Inl TypeError)"
proof -
  have "names_file h d v \<or> content h d v = []" for v
    by (simp add: content_def names_file_def split: option.splits json.splits entry.splits)
  from this [of "property m key"] show ?thesis
    by (auto simp: snd_readFile [OF assms] loads_def)
qed

lemma logs_readFile:
  assumes "meta \<noteq> JNull"
  shows "logs (fst (readFile h label d meta v)) =
           (if names_file h d v \<or> \<not> name_prints (property meta ''name'') then []
            else if prints v
              then [EntityHeader label (name_or (property meta ''name'') d), FileNotFound v]
            else [EntityHeader label (name_or (property meta ''name'') d)])"
proof (cases "snd (bind (resolve_value d v) (readFileSync h))")
  case (Inl e)
  then have "\<not> names_file h d v"
    using snd_attempt [of d v h "content h d v"] by auto
  with Inl show ?thesis
    by (simp add: readFile_def fst_try_catch fst_handler [OF assms] fst_attempt logs_append
          split: option.splits json.splits)
next
  case (Inr c)
  then have "names_file h d v"
    by (simp add: snd_attempt)
  with Inr show ?thesis
    by (simp add: readFile_def fst_try_catch fst_attempt split: option.splits json.splits)
qed

lemma fs_accesses_readFile:
  assumes "meta \<noteq> JNull"
  shows "fs_accesses (fst (readFile h label d meta v)) =
           (case v of Some (JStr s) \<Rightarrow> [ReadFile (path_resolve d s)] | _ \<Rightarrow> [])"
proof (cases "snd (bind (resolve_value d v) (readFileSync h))")
  case (Inl e)
  then show ?thesis
    by (simp add: readFile_def fst_try_catch fst_handler [OF assms] fst_attempt
          fs_accesses_append split: option.splits json.splits)
next
  case (Inr c)
  then show ?thesis
    by (simp add: readFile_def fst_try_catch fst_attempt split: option.splits json.splits)
qed

lemma snd_getFramentConfiguration:
  "snd (getFramentConfiguration h d v) =
     (if truthy v then
        (case v of
           Some (JStr s) \<Rightarrow>
             (case fs_entry h (path_resolve d s) of
                None \<Rightarrow> Inr []
              | Some (File c) \<Rightarrow> Inr c
              | Some Directory \<Rightarrow> Inl EISDIR)
         | _ \<Rightarrow> Inl TypeError)
      else Inr [])"
  by (simp add: getFramentConfiguration_def snd_bind snd_resolve_value snd_ret
        existsSync_def snd_readFileSync
        split: option.splits json.splits entry.splits)


subsection \<open>What each function returns\<close>

lemma snd_fragment_of_null:
  assumes "parsed h d ''fragment.json'' = Some JNull"
  shows "snd (fragment_of h d) = Inl TypeError"
proof -
  have "snd (readJSONSync h (d @ [''fragment.json''])) = Inr JNull"
    using assms by (simp add: snd_readJSONSync_Inr)
  then show ?thesis
    by (simp add: fragment_of_def path_resolve_files snd_bind get_prop_null snd_throw)
qed

lemma snd_fragment_of:
  assumes "parsed h d ''fragment.json'' = Some m" and "m \<noteq> JNull"
  shows "snd (fragment_of h d) =
           (if loads h d m ''htmlPath'' \<and> loads h d m ''cssPath'' \<and> loads h d m ''jsPath''
            then
              (case snd (getFramentConfiguration h d (property m ''configurationPath'')) of
                 Inl e \<Rightarrow> Inl e
               | Inr c \<Rightarrow> Inr (fragment_value h d m c))
            else Inl TypeError)"
proof -
  have "snd (readJSONSync h (d @ [''fragment.json''])) = Inr m"
    using assms by (simp add: snd_readJSONSync_Inr)
  then show ?thesis
    using assms(2)
    by (simp add: fragment_of_def fragment_value_def path_resolve_files snd_bind
          get_prop_obj bind_ret snd_readFile_loads snd_ret split: sum.splits)
qed

lemma snd_fragment_of_Inr:
  "snd (fragment_of h d) = Inr f \<longleftrightarrow>
     (\<exists>m c. parsed h d ''fragment.json'' = Some m \<and> m \<noteq> JNull \<and>
            loads h d m ''htmlPath'' \<and> loads h d m ''cssPath'' \<and> loads h d m ''jsPath'' \<and>
            snd (getFramentConfiguration h d (property m ''configurationPath'')) = Inr c \<and>
            f = fragment_value h d m c)"
proof (cases h d "''fragment.json''" rule: snd_readJSONSync_cases)
  case (ok v)
  show ?thesis
  proof (cases "v = JNull")
    case True
    then show ?thesis using ok snd_fragment_of_null [of h d] by auto
  next
    case False
    then show ?thesis
      using ok snd_fragment_of [of h d v] by (auto split: sum.splits if_splits)
  qed
next
  case (fail e)
  then show ?thesis
    by (simp add: fragment_of_def path_resolve_files snd_bind)
qed

lemma snd_composition_of_Inr:
  "snd (composition_of h d) = Inr g \<longleftrightarrow>
     (\<exists>m. parsed h d ''fragment-composition.json'' = Some m \<and> m \<noteq> JNull \<and>
          loads h d m ''fragmentCompositionDefinitionPath'' \<and>
          g = composition_value h d m)"
proof (cases h d "''fragment-composition.json''" rule: snd_readJSONSync_cases)
  case (ok v)
  show ?thesis
  proof (cases "v = JNull")
    case True
    then show ?thesis
      using ok
      by (simp add: composition_of_def path_resolve_files snd_bind get_prop_null snd_throw)
  next
    case False
    then show ?thesis
      using ok
      by (auto simp: composition_of_def composition_value_def path_resolve_files snd_bind
            get_prop_obj bind_ret snd_readFile_loads snd_ret)
  qed
next
  case (fail e)
  then show ?thesis
    by (simp add: composition_of_def path_resolve_files snd_bind)
qed

lemma snd_page_template_of_Inr:
  "snd (page_template_of h d) = Inr t \<longleftrightarrow>
     (\<exists>m j. parsed h d ''page-template.json'' = Some m \<and> m \<noteq> JNull \<and>
            parsed h d ''page-definition.json'' = Some j \<and>
            t = page_template_value h d m j)"
proof (cases h d "''page-template.json''" rule: snd_readJSONSync_cases)
  case (ok v)
  show ?thesis
  proof (cases "v = JNull")
    case True
    then show ?thesis
      using ok
      by (simp add: page_template_of_def path_resolve_files snd_bind get_prop_null snd_throw)
  next
    case False
    show ?thesis
    proof (cases h d "''page-definition.json''" rule: snd_readJSONSync_cases)
      case ok2: (ok j)
      then show ?thesis
        using ok False
        by (auto simp: page_template_of_def page_template_value_def path_resolve_files
              snd_bind get_prop_obj bind_ret snd_ret)
    next
      case (fail e)
      then show ?thesis
        using ok False
        by (simp add: page_template_of_def path_resolve_files snd_bind get_prop_obj bind_ret)
    qed
  qed
next
  case (fail e)
  then show ?thesis
    by (simp add: page_template_of_def path_resolve_files snd_bind)
qed

lemma snd_getCollectionFragments:
  "snd (getCollectionFragments h cd) =
     snd (mapM (fragment_of h) (valid_dirs h (Dir cd) ''fragment.json''))"
  by (simp add: getCollectionFragments_def snd_bind snd_scan markers_mem)

lemma snd_getCollectionFragmentCompositions:
  "snd (getCollectionFragmentCompositions h cd) =
     snd (mapM (composition_of h) (valid_dirs h (Dir cd) ''fragment-composition.json''))"
  by (simp add: getCollectionFragmentCompositions_def snd_bind snd_scan markers_mem)

lemma snd_getProjectCollections:
  "snd (getProjectCollections h bp) =
     snd (mapM (collection_of h) (valid_dirs h (SrcOf bp) ''collection.json''))"
  by (simp add: getProjectCollections_def snd_bind snd_scan markers_mem)

lemma snd_getPageTemplates:
  "snd (getPageTemplates h bp) =
     snd (mapM (page_template_of h) (valid_dirs h (SrcOf bp) ''page-template.json''))"
  by (simp add: getPageTemplates_def snd_bind snd_scan markers_mem)

lemma snd_collection_of_Inr:
  "snd (collection_of h d) = Inr c \<longleftrightarrow>
     (\<exists>m gs fs. parsed h d ''collection.json'' = Some m \<and>
        snd (getCollectionFragmentCompositions h d) = Inr gs \<and>
        snd (getCollectionFragments h d) = Inr fs \<and>
        c = collection_value d m gs fs)"
proof (cases h d "''collection.json''" rule: snd_readJSONSync_cases)
  case (ok v)
  then show ?thesis
    by (auto simp: collection_of_def collection_value_def path_resolve_files
          snd_bind_eq_Inr snd_ret)
next
  case (fail e)
  then show ?thesis
    by (simp add: collection_of_def path_resolve_files snd_bind)
qed

lemma snd_getProjectContent:
  "snd (getProjectContent h bp) = Inr P \<longleftrightarrow>
     (\<exists>pj cs ts. parsed h (path_resolve (cwd h) bp) ''package.json'' = Some pj \<and>
        snd (getProjectCollections h bp) = Inr cs \<and>
        snd (getPageTemplates h bp) = Inr ts \<and>
        P = \<lparr>basePath = bp, project = pj, collections = cs, pageTemplates = ts\<rparr>)"
proof (cases h "path_resolve (cwd h) bp" "''package.json''" rule: snd_readJSONSync_cases)
  case (ok v)
  then show ?thesis
    by (auto simp: getProjectContent_def path_resolve_files snd_bind_eq_Inr snd_ret)
next
  case (fail e)
  then show ?thesis
    by (simp add: getProjectContent_def path_resolve_files snd_bind)
qed

lemma fragment_slugs:
  assumes "snd (getCollectionFragments h d) = Inr fs"
  shows "list_all2 (\<lambda>e f. IFragment.slug f = basename e) (valid_dirs h (Dir d) ''fragment.json'') fs"
proof -
  have "list_all2 (\<lambda>e f. snd (fragment_of h e) = Inr f) (valid_dirs h (Dir d) ''fragment.json'') fs"
    using assms by (simp add: snd_getCollectionFragments snd_mapM_Inr)
  then show ?thesis
    by (rule list_all2_mono) (auto simp: snd_fragment_of_Inr fragment_value_def)
qed

lemma composition_slugs:
  assumes "snd (getCollectionFragmentCompositions h d) = Inr gs"
  shows "list_all2 (\<lambda>e g. IFragmentComposition.slug g = basename e)
           (valid_dirs h (Dir d) ''fragment-composition.json'') gs"
proof -
  have "list_all2 (\<lambda>e g. snd (composition_of h e) = Inr g)
          (valid_dirs h (Dir d) ''fragment-composition.json'') gs"
    using assms by (simp add: snd_getCollectionFragmentCompositions snd_mapM_Inr)
  then show ?thesis
    by (rule list_all2_mono) (auto simp: snd_composition_of_Inr composition_value_def)
qed

lemma page_template_slugs:
  assumes "snd (getPageTemplates h bp) = Inr ts"
  shows "list_all2
           (\<lambda>d t. IPageTemplate.slug t = basename d \<and>
                  pageTemplateDefinitionPath (IPageTemplate.metadata t) =
                    d @ [''page-definition.json''])
           (valid_dirs h (SrcOf bp) ''page-template.json'') ts"
proof -
  have "list_all2 (\<lambda>d t. snd (page_template_of h d) = Inr t)
          (valid_dirs h (SrcOf bp) ''page-template.json'') ts"
    using assms by (simp add: snd_getPageTemplates snd_mapM_Inr)
  then show ?thesis
    by (rule list_all2_mono) (auto simp: snd_page_template_of_Inr page_template_value_def)
qed

lemma collections_of_project:
  assumes "snd (getProjectContent h bp) = Inr P"
  shows "list_all2 (\<lambda>d c. snd (collection_of h d) = Inr c)
           (valid_dirs h (SrcOf bp) ''collection.json'') (collections P)"
    and "snd (getPageTemplates h bp) = Inr (pageTemplates P)"
  using assms by (auto simp: snd_getProjectContent snd_getProjectCollections snd_mapM_Inr)

lemma collection_fails:
  assumes "d \<in> set (valid_dirs h (Dir c) ''fragment.json'')"
    and "\<And>f. snd (fragment_of h d) \<noteq> Inr f"
  shows "snd (collection_of h c) \<noteq> Inr x"
proof
  assume "snd (collection_of h c) = Inr x"
  then obtain fs where "snd (getCollectionFragments h c) = Inr fs"
    by (auto simp: snd_collection_of_Inr)
  then have "list_all2 (\<lambda>d f. snd (fragment_of h d) = Inr f)
      (valid_dirs h (Dir c) ''fragment.json'') fs"
    by (simp add: snd_getCollectionFragments snd_mapM_Inr)
  from list_all2_left [OF this assms(1)] assms(2) show False
    by blast
qed

lemma basename_snoc: "basename (base @ [n]) = n"
  by (simp add: basename_def)

lemma in_children:
  assumes "n \<in> set (glob_star h base)" and "parsed h (base @ [n]) marker \<noteq> None"
  shows "base @ [n] \<in> set (children h base marker)"
proof -
  from assms(2) have "fs_entry h (base @ [n, marker]) \<noteq> None"
    by (auto simp: parsed_def split: option.splits)
  with assms(1) show ?thesis
    by (simp add: children_def)
qed

lemma fragment_found:
  assumes "snd (getCollectionFragments h d) = Inr fs"
    and "e \<in> set (matched h (Dir d) ''fragment.json'')"
    and "parsed h e ''fragment.json'' \<noteq> None"
  shows "\<exists>f \<in> set fs. snd (fragment_of h e) = Inr f \<and> IFragment.slug f = basename e"
proof -
  have "list_all2 (\<lambda>e f. snd (fragment_of h e) = Inr f)
      (valid_dirs h (Dir d) ''fragment.json'') fs"
    using assms(1) by (simp add: snd_getCollectionFragments snd_mapM_Inr)
  moreover have "e \<in> set (valid_dirs h (Dir d) ''fragment.json'')"
    using assms(2,3) by (simp add: valid_dirs_mem)
  ultimately obtain f where f: "f \<in> set fs" "snd (fragment_of h e) = Inr f"
    using list_all2_left [of "\<lambda>e f. snd (fragment_of h e) = Inr f"
        "valid_dirs h (Dir d) ''fragment.json''" fs e]
    by blast
  from f(2) have "IFragment.slug f = basename e"
    by (auto simp: snd_fragment_of_Inr fragment_value_def)
  with f show ?thesis
    by blast
qed

lemma composition_found:
  assumes "snd (getCollectionFragmentCompositions h d) = Inr gs"
    and "e \<in> set (matched h (Dir d) ''fragment-composition.json'')"
    and "parsed h e ''fragment-composition.json'' \<noteq> None"
  shows "\<exists>g \<in> set gs. snd (composition_of h e) = Inr g \<and>
           IFragmentComposition.slug g = basename e"
proof -
  have "list_all2 (\<lambda>e g. snd (composition_of h e) = Inr g)
      (valid_dirs h (Dir d) ''fragment-composition.json'') gs"
    using assms(1) by (simp add: snd_getCollectionFragmentCompositions snd_mapM_Inr)
  moreover have "e \<in> set (valid_dirs h (Dir d) ''fragment-composition.json'')"
    using assms(2,3) by (simp add: valid_dirs_mem)
  ultimately obtain g where g: "g \<in> set gs" "snd (composition_of h e) = Inr g"
    using list_all2_left [of "\<lambda>e g. snd (composition_of h e) = Inr g"
        "valid_dirs h (Dir d) ''fragment-composition.json''" gs e]
    by blast
  from g(2) have "IFragmentComposition.slug g = basename e"
    by (auto simp: snd_composition_of_Inr composition_value_def)
  with g show ?thesis
    by blast
qed

lemma collection_found:
  assumes "snd (getProjectContent h bp) = Inr P"
    and "d \<in> set (matched h (SrcOf bp) ''collection.json'')"
    and "parsed h d ''collection.json'' \<noteq> None"
  shows "\<exists>c \<in> set (collections P).
           snd (collection_of h d) = Inr c \<and> ICollection.slug c = basename d"
proof -
  have "d \<in> set (valid_dirs h (SrcOf bp) ''collection.json'')"
    using assms(2,3) by (simp add: valid_dirs_mem)
  from list_all2_left [OF collections_of_project(1) [OF assms(1)] this]
  obtain c where c: "c \<in> set (collections P)" "snd (collection_of h d) = Inr c"
    by blast
  from c(2) have "ICollection.slug c = basename d"
    by (auto simp: snd_collection_of_Inr collection_value_def)
  with c show ?thesis
    by blast
qed

lemma page_template_found:
  assumes "snd (getProjectContent h bp) = Inr P"
    and "d \<in> set (matched h (SrcOf bp) ''page-template.json'')"
    and "parsed h d ''page-template.json'' \<noteq> None"
  shows "\<exists>t \<in> set (pageTemplates P).
           snd (page_template_of h d) = Inr t \<and> IPageTemplate.slug t = basename d \<and>
           pageTemplateDefinitionPath (IPageTemplate.metadata t) =
             d @ [''page-definition.json'']"
proof -
  have "d \<in> set (valid_dirs h (SrcOf bp) ''page-template.json'')"
    using assms(2,3) by (simp add: valid_dirs_mem)
  moreover have "list_all2 (\<lambda>d t. snd (page_template_of h d) = Inr t)
      (valid_dirs h (SrcOf bp) ''page-template.json'') (pageTemplates P)"
    using collections_of_project(2) [OF assms(1)]
    by (simp add: snd_getPageTemplates snd_mapM_Inr)
  ultimately obtain t where t: "t \<in> set (pageTemplates P)" "snd (page_template_of h d) = Inr t"
    using list_all2_left [of "\<lambda>d t. snd (page_template_of h d) = Inr t"
        "valid_dirs h (SrcOf bp) ''page-template.json''" "pageTemplates P" d]
    by blast
  from t(2) have "IPageTemplate.slug t = basename d \<and>
      pageTemplateDefinitionPath (IPageTemplate.metadata t) = d @ [''page-definition.json'']"
    by (auto simp: snd_page_template_of_Inr page_template_value_def)
  with t show ?thesis
    by blast
qed

subsection \<open>Running the example\<close>

lemmas run_simps = ret_def throw_def bind_def try_catch_def log_line_def
  special_chars_def glob_matches_def to_string_def owner_to_string_def
  path_resolve_def apply_segment_def basename_def resolve_value_def readFileSync_def
  existsSync_def glob_sync_def get_prop_def name_or_def readJSONSync_def marker_ok_def
  scan_def readFile_def getFramentConfiguration_def fragment_of_def
  getCollectionFragments_def composition_of_def getCollectionFragmentCompositions_def
  collection_of_def src_dir_def getProjectCollections_def page_template_of_def
  getPageTemplates_def getProjectContent_def

lemmas demo_simps = demo_def demo_files_def demo_star_def demo_parse_def demo_stringify_def
  src_def cards_def hero_def plain_def hero_meta_def

lemmas variant_simps = demo_odd_name_def demo_odd_name_html_def demo_brackets_def odd_meta_def
  demo_html_def demo_configured_def demo_config_directory_def
  demo_no_definition_def demo_empty_def

lemma demo_fragment: "snd (fragment_of demo hero) = Inr hero_fragment"
  by (simp add: run_simps demo_simps hero_fragment_def)

lemma demo_plain_fragment: "snd (fragment_of demo plain) = Inr plain_fragment"
  by (simp add: run_simps demo_simps plain_fragment_def)


lemma demo_html_fragment:
  "snd (fragment_of demo_html hero) = Inr (hero_fragment\<lparr>html := ''<p>Hero</p>''\<rparr>)"
  by (simp add: run_simps variant_simps demo_simps hero_fragment_def)

lemma demo_templates: "snd (getPageTemplates demo ''proj'') = Inr [cards_template]"
  by (simp add: run_simps demo_simps cards_template_def)

lemma demo_collections: "snd (getProjectCollections demo ''proj'') = Inr [cards_collection]"
  by (simp add: run_simps demo_simps cards_collection_def hero_fragment_def
        plain_fragment_def hero_composition_def)

lemma demo_package:
  "parsed demo (path_resolve (cwd demo) ''proj'') ''package.json'' =
     Some (JObj [(''name'', JStr ''proj'')])"
  by (simp add: parsed_def path_resolve_def apply_segment_def demo_simps)

lemma demo_run: "snd (getProjectContent demo ''proj'') = Inr demo_project"
  by (simp add: snd_getProjectContent demo_package demo_collections demo_templates
        demo_project_def)

lemma demo_config_directory_run:
  "snd (getProjectContent demo_config_directory ''proj'') = Inl EISDIR"
  by (simp add: run_simps variant_simps demo_simps)

lemma demo_no_definition_run:
  "snd (getProjectContent demo_no_definition ''proj'') = Inl ENOENT"
  by (simp add: run_simps variant_simps demo_simps)

section \<open>The claims\<close>

subsection \<open>C1: a content path that is absent or empty\<close>

text \<open>
  Claim C1 says that the content loader, given a falsy path (absent or empty), returns the
  empty string without any file system access and without any log entry. The loader has no
  test of its argument: it passes it to \<^verbatim>\<open>path.resolve\<close> inside the \<^verbatim>\<open>try\<close> block,
  and an absent path makes that call raise, so the \<^verbatim>\<open>catch\<close> block runs and logs. In the
  example the fragment \<^verbatim>\<open>hero\<close> has no \<^verbatim>\<open>jsPath\<close>, and loading it emits two log
  entries: the claim as stated fails there.
\<close>

theorem readFile_absent_path_is_logged:
  "property hero_meta ''jsPath'' = None \<and>
   readFile demo ''Fragment'' hero hero_meta (property hero_meta ''jsPath'') =
     ([Log (EntityHeader ''Fragment'' (Named (JStr ''Hero''))), Log (FileNotFound None)],
      Inr [])"
  by (simp add: run_simps property_def demo_simps)

text \<open>
  Claim C1, amended: for a falsy path, and a metadata name whose conversion to a string
  does not raise (any name but an object with an own \<^verbatim>\<open>toString\<close> key, or an array
  that holds one), the loader returns the empty string and does not raise, and it emits the
  two log entries of the \<^verbatim>\<open>catch\<close> block (the header naming the entity and the line
  naming the path). No file is accessed when the path is absent or not a string; for the
  empty string the entity's own directory is read, which fails. The loader is only called
  after a property of the metadata was read, so the metadata is not \<^verbatim>\<open>null\<close>; the
  entity's directory is not a regular file. What the loader does for a name that does not
  print is left open here.
\<close>

theorem readFile_falsy_path:
  assumes "\<not> truthy v" and "meta \<noteq> JNull" and "\<forall>c. fs_entry h d \<noteq> Some (File c)"
    and "name_prints (property meta ''name'')"
  shows "snd (readFile h label d meta v) = Inr [] \<and>
         logs (fst (readFile h label d meta v)) =
           [EntityHeader label (name_or (property meta ''name'') d), FileNotFound v] \<and>
         fs_accesses (fst (readFile h label d meta v)) =
           (if v = Some (JStr []) then [ReadFile d] else [])"
proof -
  have empty: "path_resolve d [] = d"
    by (simp add: path_resolve_def apply_segment_def)
  have "prints v"
    using assms(1) by (cases v rule: truthy.cases) (simp_all add: prints_def)
  moreover have "\<not> names_file h d v"
    using assms(1,3)
    by (cases v rule: truthy.cases)
       (auto simp: names_file_def empty split: option.splits entry.splits)
  moreover have "(case v of Some (JStr s) \<Rightarrow> [ReadFile (path_resolve d s)] | _ \<Rightarrow> []) =
      (if v = Some (JStr []) then [ReadFile d] else [])"
    using assms(1) by (cases v rule: truthy.cases) (simp_all add: empty)
  ultimately show ?thesis
    using assms(2,4) by (simp add: snd_readFile logs_readFile fs_accesses_readFile)
qed

text \<open>C1, amended, on the example: the absent \<^verbatim>\<open>jsPath\<close> of \<^verbatim>\<open>hero\<close>, and the
  empty string as a path.\<close>

theorem readFile_falsy_path_witness:
  "\<not> truthy None \<and> \<not> truthy (Some (JStr [])) \<and> hero_meta \<noteq> JNull \<and>
   (\<forall>c. fs_entry demo hero \<noteq> Some (File c)) \<and>
   name_prints (property hero_meta ''name'') \<and>
   snd (readFile demo ''Fragment'' hero hero_meta None) = Inr [] \<and>
   logs (fst (readFile demo ''Fragment'' hero hero_meta None)) =
     [EntityHeader ''Fragment'' (Named (JStr ''Hero'')), FileNotFound None] \<and>
   fs_accesses (fst (readFile demo ''Fragment'' hero hero_meta None)) = [] \<and>
   snd (readFile demo ''Fragment'' hero hero_meta (Some (JStr []))) = Inr [] \<and>
   logs (fst (readFile demo ''Fragment'' hero hero_meta (Some (JStr [])))) =
     [EntityHeader ''Fragment'' (Named (JStr ''Hero'')), FileNotFound (Some (JStr []))] \<and>
   fs_accesses (fst (readFile demo ''Fragment'' hero hero_meta (Some (JStr [])))) =
     [ReadFile hero]"
proof -
  have h: "\<not> truthy None" "hero_meta \<noteq> JNull" "\<forall>c. fs_entry demo hero \<noteq> Some (File c)"
      "name_prints (property hero_meta ''name'')"
    and e: "\<not> truthy (Some (JStr []))"
    by (simp_all add: name_prints_def prints_def property_def demo_simps)
  show ?thesis
    using h e readFile_falsy_path [OF h, of "''Fragment''"]
      readFile_falsy_path [OF e h(2,3,4), of "''Fragment''"]
    by (simp add: property_def name_or_def hero_meta_def)
qed

subsection \<open>C2: the two fatal failures\<close>

text \<open>
  Claim C2: the aggregation raises when \<^verbatim>\<open>package.json\<close> is missing or does not parse,
  and when a directory that the page-template scan finds (a directory of one of glob's
  matches whose \<^verbatim>\<open>page-template.json\<close> parses) has no parseable
  \<^verbatim>\<open>page-definition.json\<close>; the template is not dropped, the whole call fails. When the package descriptor fails, its read is the only thing that
  happened.
\<close>

theorem fatal_failures:
  assumes "parsed h (path_resolve (cwd h) bp) ''package.json'' = None \<or>
           (\<exists>d \<in> set (valid_dirs h (SrcOf bp) ''page-template.json'').
              parsed h d ''page-definition.json'' = None)"
  shows "(\<exists>e. snd (getProjectContent h bp) = Inl e) \<and>
         (parsed h (path_resolve (cwd h) bp) ''package.json'' = None \<longrightarrow>
            fst (getProjectContent h bp) =
              [ReadFile (path_resolve (cwd h) bp @ [''package.json''])])"
proof
  show "\<exists>e. snd (getProjectContent h bp) = Inl e"
  proof (rule not_Inr_is_Inl)
    fix P
    show "snd (getProjectContent h bp) \<noteq> Inr P"
    proof
      assume "snd (getProjectContent h bp) = Inr P"
      then obtain pj ts
        where pj: "parsed h (path_resolve (cwd h) bp) ''package.json'' = Some pj"
          and ts: "snd (getPageTemplates h bp) = Inr ts"
        by (auto simp: snd_getProjectContent)
      from pj assms obtain d
        where d: "d \<in> set (valid_dirs h (SrcOf bp) ''page-template.json'')"
          and none: "parsed h d ''page-definition.json'' = None"
        by auto
      from ts have "list_all2 (\<lambda>d t. snd (page_template_of h d) = Inr t)
          (valid_dirs h (SrcOf bp) ''page-template.json'') ts"
        by (simp add: snd_getPageTemplates snd_mapM_Inr)
      from list_all2_left [OF this d] obtain t where "snd (page_template_of h d) = Inr t"
        by blast
      with none show False
        by (simp add: snd_page_template_of_Inr)
    qed
  qed
next
  show "parsed h (path_resolve (cwd h) bp) ''package.json'' = None \<longrightarrow>
            fst (getProjectContent h bp) =
              [ReadFile (path_resolve (cwd h) bp @ [''package.json''])]"
  proof
    assume "parsed h (path_resolve (cwd h) bp) ''package.json'' = None"
    then obtain e
      where "snd (readJSONSync h (path_resolve (cwd h) bp @ [''package.json''])) = Inl e"
      using snd_readJSONSync_Inl by blast
    then show "fst (getProjectContent h bp) =
              [ReadFile (path_resolve (cwd h) bp @ [''package.json''])]"
      by (simp add: getProjectContent_def path_resolve_files fst_bind fst_readJSONSync)
  qed
qed

text \<open>C2 on the example without \<^verbatim>\<open>page-definition.json\<close>, and from a working directory
  without \<^verbatim>\<open>package.json\<close>.\<close>

theorem fatal_failures_witness:
  "(\<exists>d \<in> set (valid_dirs demo_no_definition (SrcOf ''proj'')
                  ''page-template.json'').
      parsed demo_no_definition d ''page-definition.json'' = None) \<and>
   snd (getProjectContent demo_no_definition ''proj'') = Inl ENOENT \<and>
   parsed demo_elsewhere (path_resolve (cwd demo_elsewhere) ''proj'') ''package.json'' = None \<and>
   (\<exists>e. snd (getProjectContent demo_elsewhere ''proj'') = Inl e) \<and>
   fst (getProjectContent demo_elsewhere ''proj'') =
     [ReadFile [''elsewhere'', ''proj'', ''package.json'']]"
proof -
  have h: "\<exists>d \<in> set (valid_dirs demo_no_definition (SrcOf ''proj'')
                  ''page-template.json'').
      parsed demo_no_definition d ''page-definition.json'' = None"
    by (simp add: valid_dirs_def matched_def glob_matches_def special_chars_def parsed_def
          src_dir_def path_resolve_def apply_segment_def variant_simps demo_simps)
  then have "parsed demo_no_definition (path_resolve (cwd demo_no_definition) ''proj'')
        ''package.json'' = None \<or>
      (\<exists>d \<in> set (valid_dirs demo_no_definition (SrcOf ''proj'')
                  ''page-template.json'').
      parsed demo_no_definition d ''page-definition.json'' = None)"
    by (rule disjI2)
  from fatal_failures [OF this]
  have 1: "\<exists>e. snd (getProjectContent demo_no_definition ''proj'') = Inl e"
    by blast
  have p: "parsed demo_elsewhere (path_resolve (cwd demo_elsewhere) ''proj'') ''package.json''
      = None"
    by (simp add: parsed_def path_resolve_def apply_segment_def demo_elsewhere_def demo_simps)
  have r: "path_resolve (cwd demo_elsewhere) ''proj'' = [''elsewhere'', ''proj'']"
    by (simp add: path_resolve_def apply_segment_def demo_elsewhere_def demo_simps)
  from fatal_failures [of demo_elsewhere "''proj''", OF disjI1, OF p] p
  have 2: "(\<exists>e. snd (getProjectContent demo_elsewhere ''proj'') = Inl e) \<and>
      fst (getProjectContent demo_elsewhere ''proj'') =
        [ReadFile [''elsewhere'', ''proj'', ''package.json'']]"
    by (simp add: r)
  from h 1 2 p demo_no_definition_run show ?thesis
    by blast
qed

subsection \<open>C3: the scan drops what does not parse, and nothing else\<close>

text \<open>
  Claim C3: for each of the four markers, the scan returns, in glob's order, exactly the
  directories of glob's matches whose marker parses (so a marker that parses as the empty
  object is kept, and no match gives the empty sequence), it logs one entry for each
  matched directory whose marker does not parse, and it never raises. When the text of the
  scanned directory has no character that is special to glob, the matched directories are
  its children that \<^verbatim>\<open>*\<close> yields and that hold the marker.
\<close>

theorem scan_skips_unparsable_markers:
  assumes "marker \<in> set markers"
  shows "snd (scan h g marker label) =
           Inr (filter (\<lambda>d. parsed h d marker \<noteq> None) (matched h g marker)) \<and>
         logs (fst (scan h g marker label)) =
           map (\<lambda>d. InvalidMarker d marker label)
             (filter (\<lambda>d. parsed h d marker = None) (matched h g marker)) \<and>
         (\<not> has_special g \<longrightarrow>
            matched h g marker =
              map (\<lambda>n. dir_of h g @ [n])
                (filter (\<lambda>n. fs_entry h (dir_of h g @ [n, marker]) \<noteq> None)
                   (glob_star h (dir_of h g))))"
  using snd_scan [OF assms, of h g label] logs_scan [OF assms, of h g label]
    matched_literal [of g h marker]
  by (simp add: valid_dirs_def children_def)

text \<open>C3 on the example: \<^verbatim>\<open>bad\<close> is dropped and logged while \<^verbatim>\<open>cards\<close> stays; the
  composition marker of \<^verbatim>\<open>hero\<close> is the empty object and is kept; there is nothing to
  find below \<^verbatim>\<open>hero\<close>; and for the directory \<^verbatim>\<open>/work/a[b]\<close> the scan returns
  what glob matched, which lies in \<^verbatim>\<open>/work/ab\<close>.\<close>

theorem scan_skips_unparsable_markers_witness:
  "''collection.json'' \<in> set markers \<and>
   \<not> has_special (SrcOf ''proj'') \<and>
   snd (scan demo (SrcOf ''proj'') ''collection.json'' ''collection'') = Inr [cards] \<and>
   logs (fst (scan demo (SrcOf ''proj'') ''collection.json'' ''collection'')) =
     [InvalidMarker (src @ [''bad'']) ''collection.json'' ''collection''] \<and>
   snd (getProjectCollections demo ''proj'') = Inr [cards_collection] \<and>
   ''fragment-composition.json'' \<in> set markers \<and>
   parsed demo hero ''fragment-composition.json'' = Some (JObj []) \<and>
   snd (scan demo (Dir cards) ''fragment-composition.json'' ''fragment composition'') =
     Inr [hero] \<and>
   ''fragment.json'' \<in> set markers \<and>
   snd (scan demo (Dir hero) ''fragment.json'' ''fragment'') = Inr [] \<and>
   has_special (Dir [''work'', ''a[b]'']) \<and>
   snd (scan demo_brackets (Dir [''work'', ''a[b]'']) ''fragment.json'' ''fragment'') =
     Inr [[''work'', ''ab'', ''other'']]"
proof -
  have h: "''collection.json'' \<in> set markers" "''fragment-composition.json'' \<in> set markers"
    "''fragment.json'' \<in> set markers"
    by (simp_all add: markers_def)
  have s: "\<not> has_special (SrcOf ''proj'')" "has_special (Dir [''work'', ''a[b]''])"
    by (simp_all add: special_chars_def)
  show ?thesis
    using h s scan_skips_unparsable_markers [OF h(1), of demo "SrcOf ''proj''" "''collection''"]
      scan_skips_unparsable_markers [OF h(2), of demo "Dir cards" "''fragment composition''"]
      scan_skips_unparsable_markers [OF h(3), of demo "Dir hero" "''fragment''"]
      scan_skips_unparsable_markers [OF h(3), of demo_brackets "Dir [''work'', ''a[b]'']"
        "''fragment''"]
      demo_collections
    by (simp add: matched_def glob_matches_def special_chars_def parsed_def src_dir_def
          path_resolve_def apply_segment_def variant_simps demo_simps)
qed

subsection \<open>C4: the configuration degrades without a log entry\<close>



subsection \<open>C5: the fields of a page template\<close>

text \<open>
  Claim C5: when the page-template scan returns, each directory it found (each directory
  of glob's matches whose \<^verbatim>\<open>page-template.json\<close> parses) yields, at its position, the template whose slug is the directory's basename, whose metadata holds the
  marker's \<^verbatim>\<open>name\<close> and the path of the sibling \<^verbatim>\<open>page-definition.json\<close> (built from
  the directory, not read from the marker), and whose \<^verbatim>\<open>definitionData\<close> is
  \<^verbatim>\<open>JSON.stringify\<close> of \<^verbatim>\<open>JSON.parse\<close> of that file's text.
\<close>

theorem page_template_fields:
  assumes "snd (getPageTemplates h bp) = Inr ts"
  shows "list_all2
           (\<lambda>d t. \<exists>m text j.
              parsed h d ''page-template.json'' = Some m \<and>
              fs_entry h (d @ [''page-definition.json'']) = Some (File text) \<and>
              JSON_parse h text = Some j \<and>
              t = \<lparr>IPageTemplate.slug = basename d,
                   IPageTemplate.metadata =
                     \<lparr>name = property m ''name'',
                      pageTemplateDefinitionPath = d @ [''page-definition.json'']\<rparr>,
                   IPageTemplate.definitionData = JSON_stringify h j\<rparr>)
           (valid_dirs h (SrcOf bp) ''page-template.json'') ts"
proof -
  have "list_all2 (\<lambda>d t. snd (page_template_of h d) = Inr t)
          (valid_dirs h (SrcOf bp) ''page-template.json'') ts"
    using assms by (simp add: snd_getPageTemplates snd_mapM_Inr)
  then show ?thesis
  proof (rule list_all2_mono)
    fix d t
    assume "snd (page_template_of h d) = Inr t"
    then obtain m j where m: "parsed h d ''page-template.json'' = Some m"
      and j: "parsed h d ''page-definition.json'' = Some j"
      and t: "t = page_template_value h d m j"
      by (auto simp: snd_page_template_of_Inr)
    from j obtain body where "fs_entry h (d @ [''page-definition.json'']) = Some (File body)"
      and "JSON_parse h body = Some j"
      by (auto simp: parsed_def split: option.splits entry.splits)
    with m t show "\<exists>m text j.
              parsed h d ''page-template.json'' = Some m \<and>
              fs_entry h (d @ [''page-definition.json'']) = Some (File text) \<and>
              JSON_parse h text = Some j \<and>
              t = \<lparr>IPageTemplate.slug = basename d,
                   IPageTemplate.metadata =
                     \<lparr>name = property m ''name'',
                      pageTemplateDefinitionPath = d @ [''page-definition.json'']\<rparr>,
                   IPageTemplate.definitionData = JSON_stringify h j\<rparr>"
      by (auto simp: page_template_value_def)
  qed
qed

text \<open>C5 on the example: the definition's text \<^verbatim>\<open>{ "x" : 1 }\<close> comes back
  re-stringified, as recorded in \<open>cards_template\<close>.\<close>

theorem page_template_fields_witness:
  "snd (getPageTemplates demo ''proj'') = Inr [cards_template] \<and>
   list_all2
     (\<lambda>d t. \<exists>m text j.
        parsed demo d ''page-template.json'' = Some m \<and>
        fs_entry demo (d @ [''page-definition.json'']) = Some (File text) \<and>
        JSON_parse demo text = Some j \<and>
        t = \<lparr>IPageTemplate.slug = basename d,
             IPageTemplate.metadata =
               \<lparr>name = property m ''name'',
                pageTemplateDefinitionPath = d @ [''page-definition.json'']\<rparr>,
             IPageTemplate.definitionData = JSON_stringify demo j\<rparr>)
     (valid_dirs demo (SrcOf ''proj'') ''page-template.json'') [cards_template]"
  using page_template_fields [OF demo_templates] demo_templates by blast

subsection \<open>C6: a missing html file changes the html field only\<close>

text \<open>
  Claim C6 says that a fragment whose \<^verbatim>\<open>htmlPath\<close> names nothing that exists gets the
  empty \<^verbatim>\<open>html\<close>, is still included, and has its other fields as if the file were
  there. The \<^verbatim>\<open>catch\<close> block of the loader converts \<^verbatim>\<open>metadata.name\<close> to a string
  for its log message, and for a name that is an object with an own \<^verbatim>\<open>toString\<close> key
  that conversion raises. In the example with such a name (and with css and js files that
  exist) the fragment is built when \<^verbatim>\<open>index.html\<close> exists, and without it both the
  fragment and the whole call end with a \<^verbatim>\<open>TypeError\<close>: the claim as stated fails
  there.
\<close>

theorem missing_html_with_unprintable_name_raises:
  "parsed demo_odd_name hero ''fragment.json'' = Some odd_meta \<and>
   property odd_meta ''name'' = Some (JObj [(''toString'', JNum 0)]) \<and>
   property odd_meta ''htmlPath'' = Some (JStr ''index.html'') \<and>
   fs_entry demo_odd_name (path_resolve hero ''index.html'') = None \<and>
   snd (fragment_of demo_odd_name hero) = Inl TypeError \<and>
   snd (getProjectContent demo_odd_name ''proj'') = Inl TypeError \<and>
   snd (fragment_of demo_odd_name_html hero) =
     Inr \<lparr>IFragment.slug = ''hero'', IFragment.metadata = odd_meta,
          html = ''<p>Hero</p>'', css = ''.hero{}'', js = ''.hero{}'', configuration = []\<rparr>"
  by (simp add: run_simps parsed_def property_def variant_simps demo_simps)

text \<open>
  Claim C6, amended: let a fragment's \<^verbatim>\<open>htmlPath\<close> name nothing that exists on host
  \<open>h\<close>, let the conversion of its \<^verbatim>\<open>metadata.name\<close> to a string not raise (any name
  but an object with an own \<^verbatim>\<open>toString\<close> key, or an array that holds one), and
  let \<open>h'\<close> be any host with the same marker on which the paths of the other content
  fields resolve to the same entries (for instance \<open>h\<close> with the html file added). Then
  building the fragment on \<open>h\<close> gives what it gives on \<open>h'\<close> with \<^verbatim>\<open>html\<close> replaced by
  the empty string: same slug, metadata, css, js and configuration, and the same exception
  if there is one. Whenever the collection's fragment list is returned and the scan found
  the fragment's directory, the fragment is in the list, with the empty \<^verbatim>\<open>html\<close>.
\<close>

theorem missing_html_leaves_the_rest:
  assumes m: "parsed h d ''fragment.json'' = Some m"
    and m': "parsed h' d ''fragment.json'' = Some m"
    and p: "property m ''htmlPath'' = Some (JStr p)"
    and missing: "fs_entry h (path_resolve d p) = None"
    and same: "\<forall>key \<in> set [''cssPath'', ''jsPath'', ''configurationPath'']. \<forall>s.
                 property m key = Some (JStr s) \<longrightarrow>
                 fs_entry h' (path_resolve d s) = fs_entry h (path_resolve d s)"
    and name: "name_prints (property m ''name'')"
  shows "snd (fragment_of h d) =
           (case snd (fragment_of h' d) of
              Inl e \<Rightarrow> Inl e
            | Inr f' \<Rightarrow> Inr (f'\<lparr>html := []\<rparr>)) \<and>
         (\<forall>cd fs. d \<in> set (matched h (Dir cd) ''fragment.json'') \<and>
                  snd (getCollectionFragments h cd) = Inr fs \<longrightarrow>
            (\<exists>f \<in> set fs. IFragment.slug f = basename d \<and> IFragment.metadata f = m \<and>
                           html f = []))"
proof
  have nn: "m \<noteq> JNull"
    using p by (auto simp: property_def)
  have content_eq: "content h' d (property m key) = content h d (property m key)"
    if "key \<in> set [''cssPath'', ''jsPath'', ''configurationPath'']" for key
    using same that by (auto simp: content_def split: option.splits json.splits)
  have names_eq: "names_file h' d (property m key) = names_file h d (property m key)"
    if "key \<in> set [''cssPath'', ''jsPath'', ''configurationPath'']" for key
    using same that by (auto simp: names_file_def split: option.splits json.splits)
  have loads_eq: "loads h' d m key = loads h d m key"
    if "key \<in> set [''cssPath'', ''jsPath'', ''configurationPath'']" for key
    using names_eq [OF that] by (simp add: loads_def)
  have loads_html: "loads h d m ''htmlPath''" "loads h' d m ''htmlPath''"
    using p name by (simp_all add: loads_def prints_def)
  have conf_eq: "snd (getFramentConfiguration h' d (property m ''configurationPath'')) =
                 snd (getFramentConfiguration h d (property m ''configurationPath''))"
    using same by (auto simp: snd_getFramentConfiguration split: option.splits json.splits)
  have html: "content h d (property m ''htmlPath'') = []"
    using p missing by (simp add: content_def)
  have value_eq: "fragment_value h d m c = (fragment_value h' d m c)\<lparr>html := []\<rparr>" for c
    using content_eq html by (simp add: fragment_value_def)
  show eq: "snd (fragment_of h d) =
           (case snd (fragment_of h' d) of
              Inl e \<Rightarrow> Inl e
            | Inr f' \<Rightarrow> Inr (f'\<lparr>html := []\<rparr>))"
    by (simp add: snd_fragment_of [OF m nn] snd_fragment_of [OF m' nn] conf_eq value_eq
          loads_eq loads_html split: sum.splits)
  show "\<forall>cd fs. d \<in> set (matched h (Dir cd) ''fragment.json'') \<and>
                  snd (getCollectionFragments h cd) = Inr fs \<longrightarrow>
            (\<exists>f \<in> set fs. IFragment.slug f = basename d \<and> IFragment.metadata f = m \<and>
                           html f = [])"
  proof (intro allI impI, elim conjE)
    fix cd fs
    assume d: "d \<in> set (matched h (Dir cd) ''fragment.json'')"
      and fs: "snd (getCollectionFragments h cd) = Inr fs"
    from d m have dv: "d \<in> set (valid_dirs h (Dir cd) ''fragment.json'')"
      by (simp add: valid_dirs_def)
    from fs have "list_all2 (\<lambda>d f. snd (fragment_of h d) = Inr f)
          (valid_dirs h (Dir cd) ''fragment.json'') fs"
      by (simp add: snd_getCollectionFragments snd_mapM_Inr)
    from list_all2_left [OF this dv]
    obtain f where f: "f \<in> set fs" "snd (fragment_of h d) = Inr f"
      by blast
    from f(2) m obtain c where "f = fragment_value h d m c"
      by (auto simp: snd_fragment_of_Inr)
    with html have "IFragment.slug f = basename d \<and> IFragment.metadata f = m \<and> html f = []"
      by (simp add: fragment_value_def)
    with f(1) show "\<exists>f \<in> set fs. IFragment.slug f = basename d \<and>
        IFragment.metadata f = m \<and> html f = []"
      by blast
  qed
qed

text \<open>C6 on the example, against the variant in which \<^verbatim>\<open>index.html\<close> exists.\<close>

theorem missing_html_leaves_the_rest_witness:
  \<open>parsed demo hero ''fragment.json'' = Some hero_meta \<and>
   parsed demo_html hero ''fragment.json'' = Some hero_meta \<and>
   property hero_meta ''htmlPath'' = Some (JStr ''index.html'') \<and>
   fs_entry demo (path_resolve hero ''index.html'') = None \<and>
   fs_entry demo_html (path_resolve hero ''index.html'') = Some (File ''<p>Hero</p>'') \<and>
   snd (fragment_of demo_html hero) = Inr (hero_fragment\<lparr>html := ''<p>Hero</p>''\<rparr>) \<and>
   name_prints (property hero_meta ''name'') \<and>
   snd (fragment_of demo hero) = Inr hero_fragment \<and>
   hero \<in> set (matched demo (Dir cards) ''fragment.json'') \<and>
   snd (getCollectionFragments demo cards) = Inr [hero_fragment, plain_fragment]\<close>
proof -
  have m: "parsed demo hero ''fragment.json'' = Some hero_meta"
    and m': "parsed demo_html hero ''fragment.json'' = Some hero_meta"
    and p: "property hero_meta ''htmlPath'' = Some (JStr ''index.html'')"
    and missing: "fs_entry demo (path_resolve hero ''index.html'') = None"
    and present: "fs_entry demo_html (path_resolve hero ''index.html'') = Some (File ''<p>Hero</p>'')"
    and found: "hero \<in> set (matched demo (Dir cards) ''fragment.json'')"
    and name: "name_prints (property hero_meta ''name'')"
    by (simp_all add: parsed_def property_def path_resolve_def apply_segment_def matched_def
          glob_matches_def special_chars_def name_prints_def prints_def
          variant_simps demo_simps)
  have same: "\<forall>key \<in> set [''cssPath'', ''jsPath'', ''configurationPath'']. \<forall>s.
      property hero_meta key = Some (JStr s) \<longrightarrow>
      fs_entry demo_html (path_resolve hero s) = fs_entry demo (path_resolve hero s)"
    by (simp add: property_def path_resolve_def apply_segment_def variant_simps demo_simps)
  have vd: "valid_dirs demo (Dir cards) ''fragment.json'' = [hero, plain]"
    by (simp add: valid_dirs_def matched_def glob_matches_def special_chars_def parsed_def
          demo_simps)
  have "list_all2 (\<lambda>d f. snd (fragment_of demo d) = Inr f)
      [hero, plain] [hero_fragment, plain_fragment]"
    by (simp add: demo_fragment demo_plain_fragment)
  then have all: "snd (getCollectionFragments demo cards) = Inr [hero_fragment, plain_fragment]"
    by (simp only: snd_getCollectionFragments vd snd_mapM_Inr)
  from missing_html_leaves_the_rest [OF m m' p missing same name]
  have "snd (fragment_of demo hero) = Inr hero_fragment"
    by (simp add: demo_html_fragment hero_fragment_def)
  with m m' p missing present found all name demo_html_fragment show ?thesis
    by simp
qed

subsection \<open>C7: the project that is returned\<close>

text \<open>
  Claim C7: when \<^verbatim>\<open>package.json\<close> parses, the result is decided by the two scans of
  the pattern \<^verbatim>\<open>basePath/src/*\<close>: the project holds the base path as given, the parsed
  package descriptor, the collections built from the directories of the collection scan
  and the page templates built from those of the page-template scan (and the call raises
  when building one of them raises). When glob matches nothing for either marker, the
  project is returned with both sequences empty; that is so in particular when the base
  path has no character that is special to glob and \<^verbatim>\<open>*\<close> yields nothing below
  \<^verbatim>\<open>basePath/src\<close>.
\<close>

theorem project_fields:
  assumes "parsed h (path_resolve (cwd h) bp) ''package.json'' = Some pj"
  shows "snd (getProjectContent h bp) =
           (case snd (mapM (collection_of h)
                       (valid_dirs h (SrcOf bp) ''collection.json'')) of
              Inl e \<Rightarrow> Inl e
            | Inr cs \<Rightarrow>
               (case snd (mapM (page_template_of h)
                           (valid_dirs h (SrcOf bp) ''page-template.json'')) of
                  Inl e \<Rightarrow> Inl e
                | Inr ts \<Rightarrow>
                    Inr \<lparr>basePath = bp, project = pj,
                         collections = cs, pageTemplates = ts\<rparr>)) \<and>
         (matched h (SrcOf bp) ''collection.json'' = [] \<and>
          matched h (SrcOf bp) ''page-template.json'' = [] \<longrightarrow>
            snd (getProjectContent h bp) =
              Inr \<lparr>basePath = bp, project = pj, collections = [], pageTemplates = []\<rparr>) \<and>
         (\<not> has_special (SrcOf bp) \<and> glob_star h (src_dir h bp) = [] \<longrightarrow>
            snd (getProjectContent h bp) =
              Inr \<lparr>basePath = bp, project = pj, collections = [], pageTemplates = []\<rparr>)"
proof -
  have pkg: "snd (readJSONSync h (path_resolve (cwd h) bp @ [''package.json''])) = Inr pj"
    using assms by (simp add: snd_readJSONSync_Inr)
  have eq: "snd (getProjectContent h bp) =
           (case snd (mapM (collection_of h)
                       (valid_dirs h (SrcOf bp) ''collection.json'')) of
              Inl e \<Rightarrow> Inl e
            | Inr cs \<Rightarrow>
               (case snd (mapM (page_template_of h)
                           (valid_dirs h (SrcOf bp) ''page-template.json'')) of
                  Inl e \<Rightarrow> Inl e
                | Inr ts \<Rightarrow>
                    Inr \<lparr>basePath = bp, project = pj,
                         collections = cs, pageTemplates = ts\<rparr>))"
    unfolding getProjectContent_def path_resolve_files
    by (simp only: snd_bind pkg sum.case snd_ret snd_getProjectCollections
          snd_getPageTemplates)
  have none: "snd (getProjectContent h bp) =
      Inr \<lparr>basePath = bp, project = pj, collections = [], pageTemplates = []\<rparr>"
    if "matched h (SrcOf bp) ''collection.json'' = []"
      and "matched h (SrcOf bp) ''page-template.json'' = []"
    using that by (simp add: eq valid_dirs_def snd_ret)
  have "matched h (SrcOf bp) marker = []"
    if "\<not> has_special (SrcOf bp)" and "glob_star h (src_dir h bp) = []" for marker
    using that by (simp add: matched_literal children_def)
  with eq none show ?thesis
    by blast
qed

text \<open>C7 on the example, and on the variant with nothing below \<^verbatim>\<open>src\<close>.\<close>

theorem project_fields_witness:
  "parsed demo (path_resolve (cwd demo) ''proj'') ''package.json'' =
     Some (JObj [(''name'', JStr ''proj'')]) \<and>
   snd (getProjectContent demo ''proj'') = Inr demo_project \<and>
   \<not> has_special (SrcOf ''proj'') \<and>
   glob_star demo_empty (src_dir demo_empty ''proj'') = [] \<and>
   snd (getProjectContent demo_empty ''proj'') =
     Inr \<lparr>basePath = ''proj'', project = JObj [(''name'', JStr ''proj'')],
          collections = [], pageTemplates = []\<rparr>"
proof -
  have e: "parsed demo_empty (path_resolve (cwd demo_empty) ''proj'') ''package.json'' =
     Some (JObj [(''name'', JStr ''proj'')])"
    and g: "glob_star demo_empty (src_dir demo_empty ''proj'') = []"
    by (simp_all add: parsed_def path_resolve_def apply_segment_def variant_simps demo_simps)
  have cs: "snd (mapM (collection_of demo) (valid_dirs demo (SrcOf ''proj'') ''collection.json'')) = Inr [cards_collection]"
    using demo_collections by (simp add: snd_getProjectCollections)
  have ts: "snd (mapM (page_template_of demo) (valid_dirs demo (SrcOf ''proj'') ''page-template.json'')) = Inr [cards_template]"
    using demo_templates by (simp add: snd_getPageTemplates)
  from project_fields [OF demo_package]
  have a: "snd (getProjectContent demo ''proj'') = Inr demo_project"
    by (simp add: cs ts demo_project_def)
  have s: "\<not> has_special (SrcOf ''proj'')"
    by (simp add: special_chars_def)
  from project_fields [OF e] g s
  have b: "snd (getProjectContent demo_empty ''proj'') =
     Inr \<lparr>basePath = ''proj'', project = JObj [(''name'', JStr ''proj'')],
          collections = [], pageTemplates = []\<rparr>"
    by blast
  from a b demo_package g s show ?thesis
    by blast
qed

subsection \<open>C8: slugs are directory basenames\<close>

text \<open>
  Claim C8: in a returned project every collection, fragment, fragment composition and page
  template stands at the position of its own directory (the directory of glob's match that
  it was built from) in the scan that found it, and its
  slug is the basename of that directory; a collection's \<^verbatim>\<open>fragmentCollectionId\<close> is
  its slug.
\<close>

theorem slug_is_directory_basename:
  assumes "snd (getProjectContent h bp) = Inr P"
  shows "list_all2
           (\<lambda>d c. ICollection.slug c = basename d \<and>
                  fragmentCollectionId c = ICollection.slug c \<and>
                  list_all2 (\<lambda>e f. IFragment.slug f = basename e)
                    (valid_dirs h (Dir d) ''fragment.json'') (fragments c) \<and>
                  list_all2 (\<lambda>e g. IFragmentComposition.slug g = basename e)
                    (valid_dirs h (Dir d) ''fragment-composition.json'') (fragmentCompositions c))
           (valid_dirs h (SrcOf bp) ''collection.json'') (collections P) \<and>
         list_all2 (\<lambda>d t. IPageTemplate.slug t = basename d)
           (valid_dirs h (SrcOf bp) ''page-template.json'') (pageTemplates P)"
proof
  show "list_all2
           (\<lambda>d c. ICollection.slug c = basename d \<and>
                  fragmentCollectionId c = ICollection.slug c \<and>
                  list_all2 (\<lambda>e f. IFragment.slug f = basename e)
                    (valid_dirs h (Dir d) ''fragment.json'') (fragments c) \<and>
                  list_all2 (\<lambda>e g. IFragmentComposition.slug g = basename e)
                    (valid_dirs h (Dir d) ''fragment-composition.json'') (fragmentCompositions c))
           (valid_dirs h (SrcOf bp) ''collection.json'') (collections P)"
    using collections_of_project(1) [OF assms]
  proof (rule list_all2_mono)
    fix d c
    assume "snd (collection_of h d) = Inr c"
    then obtain m gs fs where gs: "snd (getCollectionFragmentCompositions h d) = Inr gs"
      and fs: "snd (getCollectionFragments h d) = Inr fs"
      and c: "c = collection_value d m gs fs"
      by (auto simp: snd_collection_of_Inr)
    show "ICollection.slug c = basename d \<and>
                  fragmentCollectionId c = ICollection.slug c \<and>
                  list_all2 (\<lambda>e f. IFragment.slug f = basename e)
                    (valid_dirs h (Dir d) ''fragment.json'') (fragments c) \<and>
                  list_all2 (\<lambda>e g. IFragmentComposition.slug g = basename e)
                    (valid_dirs h (Dir d) ''fragment-composition.json'') (fragmentCompositions c)"
      using fragment_slugs [OF fs] composition_slugs [OF gs]
      by (simp add: c collection_value_def)
  qed
next
  show "list_all2 (\<lambda>d t. IPageTemplate.slug t = basename d)
           (valid_dirs h (SrcOf bp) ''page-template.json'') (pageTemplates P)"
    using page_template_slugs [OF collections_of_project(2) [OF assms]]
    by (rule list_all2_mono) simp
qed

text \<open>C8 on the example.\<close>

theorem slug_is_directory_basename_witness:
  "snd (getProjectContent demo ''proj'') = Inr demo_project \<and>
   list_all2
     (\<lambda>d c. ICollection.slug c = basename d \<and>
            fragmentCollectionId c = ICollection.slug c \<and>
            list_all2 (\<lambda>e f. IFragment.slug f = basename e)
              (valid_dirs demo (Dir d) ''fragment.json'') (fragments c) \<and>
            list_all2 (\<lambda>e g. IFragmentComposition.slug g = basename e)
              (valid_dirs demo (Dir d) ''fragment-composition.json'') (fragmentCompositions c))
     (valid_dirs demo (SrcOf ''proj'') ''collection.json'') (collections demo_project) \<and>
   list_all2 (\<lambda>d t. IPageTemplate.slug t = basename d)
     (valid_dirs demo (SrcOf ''proj'') ''page-template.json'')
     (pageTemplates demo_project)"
  using slug_is_directory_basename [OF demo_run] demo_run by blast

subsection \<open>C9: a configuration path that names a directory\<close>

text \<open>
  Claim C9: there are inputs on which the aggregation raises because of a fragment's
  configuration. When \<^verbatim>\<open>configurationPath\<close> is a non-empty string that resolves to a
  directory, \<^verbatim>\<open>existsSync\<close> answers true and the read, which no \<^verbatim>\<open>try\<close> surrounds,
  raises \<^verbatim>\<open>EISDIR\<close>; the fragment is not built and, for a fragment found by the scans,
  the whole call raises.
\<close>

theorem configuration_directory_aborts:
  assumes c: "c \<in> set (valid_dirs h (SrcOf bp) ''collection.json'')"
    and d: "d \<in> set (valid_dirs h (Dir c) ''fragment.json'')"
    and m: "parsed h d ''fragment.json'' = Some m"
    and p: "property m ''configurationPath'' = Some (JStr p)" "p \<noteq> []"
    and dir: "fs_entry h (path_resolve d p) = Some Directory"
  shows "snd (getFramentConfiguration h d (property m ''configurationPath'')) = Inl EISDIR \<and>
         (\<exists>e. snd (fragment_of h d) = Inl e) \<and>
         (\<exists>e. snd (getProjectContent h bp) = Inl e)"
proof (intro conjI)
  show conf: "snd (getFramentConfiguration h d (property m ''configurationPath'')) = Inl EISDIR"
    using p dir by (simp add: snd_getFramentConfiguration)
  have frag: "snd (fragment_of h d) \<noteq> Inr f" for f
    using m conf by (auto simp: snd_fragment_of_Inr)
  then show "\<exists>e. snd (fragment_of h d) = Inl e"
    by (rule not_Inr_is_Inl)
  show "\<exists>e. snd (getProjectContent h bp) = Inl e"
  proof (rule not_Inr_is_Inl)
    fix P
    show "snd (getProjectContent h bp) \<noteq> Inr P"
    proof
      assume "snd (getProjectContent h bp) = Inr P"
      from list_all2_left [OF collections_of_project(1) [OF this] c]
      obtain x where "snd (collection_of h c) = Inr x"
        by blast
      with collection_fails [OF d frag] show False
        by blast
    qed
  qed
qed

text \<open>C9 on the variant of the example in which \<^verbatim>\<open>config.json\<close> is a directory: the
  call ends with \<^verbatim>\<open>EISDIR\<close>.\<close>

theorem configuration_directory_aborts_witness:
  "cards \<in> set (valid_dirs demo_config_directory (SrcOf ''proj'')
                  ''collection.json'') \<and>
   hero \<in> set (valid_dirs demo_config_directory (Dir cards) ''fragment.json'') \<and>
   parsed demo_config_directory hero ''fragment.json'' = Some hero_meta \<and>
   property hero_meta ''configurationPath'' = Some (JStr ''config.json'') \<and>
   fs_entry demo_config_directory (path_resolve hero ''config.json'') = Some Directory \<and>
   snd (getFramentConfiguration demo_config_directory hero
          (property hero_meta ''configurationPath'')) = Inl EISDIR \<and>
   snd (getProjectContent demo_config_directory ''proj'') = Inl EISDIR"
proof -
  have c: "cards \<in> set (valid_dirs demo_config_directory (SrcOf ''proj'')
                  ''collection.json'')"
    and d: "hero \<in> set (valid_dirs demo_config_directory (Dir cards) ''fragment.json'')"
    and m: "parsed demo_config_directory hero ''fragment.json'' = Some hero_meta"
    and p: "property hero_meta ''configurationPath'' = Some (JStr ''config.json'')"
      "''config.json'' \<noteq> []"
    and dir: "fs_entry demo_config_directory (path_resolve hero ''config.json'') = Some Directory"
    by (simp_all add: valid_dirs_def matched_def glob_matches_def special_chars_def
          parsed_def property_def src_dir_def
          path_resolve_def apply_segment_def variant_simps demo_simps)
  from configuration_directory_aborts [OF c d m p dir] c d m p dir demo_config_directory_run
  show ?thesis
    by blast
qed

subsection \<open>C10: a directory with two markers\<close>

text \<open>
  Claim C10: the two scans of \<^verbatim>\<open>basePath/src/*\<close> are independent, and so are the two
  scans below a collection. In a returned project, a directory that glob matches for both
  \<^verbatim>\<open>collection.json\<close> and \<^verbatim>\<open>page-template.json\<close>, both of which parse, yields a
  collection in \<^verbatim>\<open>collections\<close> and a page template in \<^verbatim>\<open>pageTemplates\<close>; and for
  every collection, a directory that glob matches below the collection's directory for both
  \<^verbatim>\<open>fragment.json\<close> and \<^verbatim>\<open>fragment-composition.json\<close>, both of which parse,
  yields a fragment and a fragment composition of that collection. When the text of the
  scanned directory has no character that is special to glob, these directories are its
  children that \<^verbatim>\<open>*\<close> yields and that hold both markers.
\<close>

theorem directory_with_two_markers:
  assumes "snd (getProjectContent h bp) = Inr P"
  shows "(\<forall>d. d \<in> set (matched h (SrcOf bp) ''collection.json'') \<and>
              d \<in> set (matched h (SrcOf bp) ''page-template.json'') \<and>
              parsed h d ''collection.json'' \<noteq> None \<and>
              parsed h d ''page-template.json'' \<noteq> None \<longrightarrow>
            (\<exists>c \<in> set (collections P).
               snd (collection_of h d) = Inr c \<and> ICollection.slug c = basename d) \<and>
            (\<exists>t \<in> set (pageTemplates P).
               snd (page_template_of h d) = Inr t \<and> IPageTemplate.slug t = basename d \<and>
               pageTemplateDefinitionPath (IPageTemplate.metadata t) =
                 d @ [''page-definition.json''])) \<and>
         (\<not> has_special (SrcOf bp) \<longrightarrow>
            (\<forall>n \<in> set (glob_star h (src_dir h bp)).
               parsed h (src_dir h bp @ [n]) ''collection.json'' \<noteq> None \<and>
               parsed h (src_dir h bp @ [n]) ''page-template.json'' \<noteq> None \<longrightarrow>
               (\<exists>c \<in> set (collections P). ICollection.slug c = n) \<and>
               (\<exists>t \<in> set (pageTemplates P). IPageTemplate.slug t = n \<and>
                  pageTemplateDefinitionPath (IPageTemplate.metadata t) =
                    src_dir h bp @ [n, ''page-definition.json'']))) \<and>
         list_all2
           (\<lambda>d c.
              (\<forall>e. e \<in> set (matched h (Dir d) ''fragment.json'') \<and>
                   e \<in> set (matched h (Dir d) ''fragment-composition.json'') \<and>
                   parsed h e ''fragment.json'' \<noteq> None \<and>
                   parsed h e ''fragment-composition.json'' \<noteq> None \<longrightarrow>
                 (\<exists>f \<in> set (fragments c).
                    snd (fragment_of h e) = Inr f \<and> IFragment.slug f = basename e) \<and>
                 (\<exists>g \<in> set (fragmentCompositions c).
                    snd (composition_of h e) = Inr g \<and>
                    IFragmentComposition.slug g = basename e)) \<and>
              (\<not> has_special (Dir d) \<longrightarrow>
                 (\<forall>k \<in> set (glob_star h d).
                    parsed h (d @ [k]) ''fragment.json'' \<noteq> None \<and>
                    parsed h (d @ [k]) ''fragment-composition.json'' \<noteq> None \<longrightarrow>
                    (\<exists>f \<in> set (fragments c). IFragment.slug f = k) \<and>
                    (\<exists>g \<in> set (fragmentCompositions c).
                       IFragmentComposition.slug g = k))))
           (valid_dirs h (SrcOf bp) ''collection.json'') (collections P)"
proof (intro conjI allI impI ballI)
  fix d
  assume d: "d \<in> set (matched h (SrcOf bp) ''collection.json'') \<and>
              d \<in> set (matched h (SrcOf bp) ''page-template.json'') \<and>
              parsed h d ''collection.json'' \<noteq> None \<and>
              parsed h d ''page-template.json'' \<noteq> None"
  from d show "\<exists>c \<in> set (collections P).
      snd (collection_of h d) = Inr c \<and> ICollection.slug c = basename d"
    using collection_found [OF assms, of d] by blast
  from d show "\<exists>t \<in> set (pageTemplates P).
      snd (page_template_of h d) = Inr t \<and> IPageTemplate.slug t = basename d \<and>
      pageTemplateDefinitionPath (IPageTemplate.metadata t) = d @ [''page-definition.json'']"
    using page_template_found [OF assms, of d] by blast
next
  fix n
  assume plain: "\<not> has_special (SrcOf bp)"
    and n: "n \<in> set (glob_star h (src_dir h bp))"
    and both: "parsed h (src_dir h bp @ [n]) ''collection.json'' \<noteq> None \<and>
               parsed h (src_dir h bp @ [n]) ''page-template.json'' \<noteq> None"
  have m: "matched h (SrcOf bp) marker = children h (src_dir h bp) marker" for marker
    using matched_literal [OF plain] by simp
  from n both have "src_dir h bp @ [n] \<in> set (matched h (SrcOf bp) ''collection.json'')"
    by (simp add: m in_children)
  from collection_found [OF assms this] both
  show "\<exists>c \<in> set (collections P). ICollection.slug c = n"
    by (auto simp: basename_snoc)
  from n both have "src_dir h bp @ [n] \<in> set (matched h (SrcOf bp) ''page-template.json'')"
    by (simp add: m in_children)
  from page_template_found [OF assms this] both
  show "\<exists>t \<in> set (pageTemplates P). IPageTemplate.slug t = n \<and>
      pageTemplateDefinitionPath (IPageTemplate.metadata t) =
        src_dir h bp @ [n, ''page-definition.json'']"
    by (auto simp: basename_snoc)
next
  show "list_all2
           (\<lambda>d c.
              (\<forall>e. e \<in> set (matched h (Dir d) ''fragment.json'') \<and>
                   e \<in> set (matched h (Dir d) ''fragment-composition.json'') \<and>
                   parsed h e ''fragment.json'' \<noteq> None \<and>
                   parsed h e ''fragment-composition.json'' \<noteq> None \<longrightarrow>
                 (\<exists>f \<in> set (fragments c).
                    snd (fragment_of h e) = Inr f \<and> IFragment.slug f = basename e) \<and>
                 (\<exists>g \<in> set (fragmentCompositions c).
                    snd (composition_of h e) = Inr g \<and>
                    IFragmentComposition.slug g = basename e)) \<and>
              (\<not> has_special (Dir d) \<longrightarrow>
                 (\<forall>k \<in> set (glob_star h d).
                    parsed h (d @ [k]) ''fragment.json'' \<noteq> None \<and>
                    parsed h (d @ [k]) ''fragment-composition.json'' \<noteq> None \<longrightarrow>
                    (\<exists>f \<in> set (fragments c). IFragment.slug f = k) \<and>
                    (\<exists>g \<in> set (fragmentCompositions c).
                       IFragmentComposition.slug g = k))))
           (valid_dirs h (SrcOf bp) ''collection.json'') (collections P)"
    using collections_of_project(1) [OF assms]
  proof (rule list_all2_mono)
    fix d c
    assume "snd (collection_of h d) = Inr c"
    then obtain m gs fs where gs: "snd (getCollectionFragmentCompositions h d) = Inr gs"
      and fs: "snd (getCollectionFragments h d) = Inr fs"
      and cv: "c = collection_value d m gs fs"
      by (auto simp: snd_collection_of_Inr)
    have frs: "fragments c = fs" and cps: "fragmentCompositions c = gs"
      by (simp_all add: cv collection_value_def)
    have general: "(\<exists>f \<in> set (fragments c).
          snd (fragment_of h e) = Inr f \<and> IFragment.slug f = basename e) \<and>
        (\<exists>g \<in> set (fragmentCompositions c).
          snd (composition_of h e) = Inr g \<and> IFragmentComposition.slug g = basename e)"
      if "e \<in> set (matched h (Dir d) ''fragment.json'')"
        and "e \<in> set (matched h (Dir d) ''fragment-composition.json'')"
        and "parsed h e ''fragment.json'' \<noteq> None"
        and "parsed h e ''fragment-composition.json'' \<noteq> None"
      for e
      using fragment_found [OF fs that(1,3)] composition_found [OF gs that(2,4)]
      by (simp add: frs cps)
    have literal: "(\<exists>f \<in> set (fragments c). IFragment.slug f = k) \<and>
        (\<exists>g \<in> set (fragmentCompositions c). IFragmentComposition.slug g = k)"
      if plain: "\<not> has_special (Dir d)" and k: "k \<in> set (glob_star h d)"
        and pf: "parsed h (d @ [k]) ''fragment.json'' \<noteq> None"
        and pc: "parsed h (d @ [k]) ''fragment-composition.json'' \<noteq> None"
      for k
    proof -
      have m: "matched h (Dir d) marker = children h d marker" for marker
        using matched_literal [OF plain] by simp
      from general [of "d @ [k]"] k pf pc show ?thesis
        by (auto simp: m in_children basename_snoc)
    qed
    from general literal
    show "(\<forall>e. e \<in> set (matched h (Dir d) ''fragment.json'') \<and>
                   e \<in> set (matched h (Dir d) ''fragment-composition.json'') \<and>
                   parsed h e ''fragment.json'' \<noteq> None \<and>
                   parsed h e ''fragment-composition.json'' \<noteq> None \<longrightarrow>
                 (\<exists>f \<in> set (fragments c).
                    snd (fragment_of h e) = Inr f \<and> IFragment.slug f = basename e) \<and>
                 (\<exists>g \<in> set (fragmentCompositions c).
                    snd (composition_of h e) = Inr g \<and>
                    IFragmentComposition.slug g = basename e)) \<and>
              (\<not> has_special (Dir d) \<longrightarrow>
                 (\<forall>k \<in> set (glob_star h d).
                    parsed h (d @ [k]) ''fragment.json'' \<noteq> None \<and>
                    parsed h (d @ [k]) ''fragment-composition.json'' \<noteq> None \<longrightarrow>
                    (\<exists>f \<in> set (fragments c). IFragment.slug f = k) \<and>
                    (\<exists>g \<in> set (fragmentCompositions c).
                       IFragmentComposition.slug g = k)))"
      by blast
  qed
qed

text \<open>C10 on the example: \<^verbatim>\<open>cards\<close> is a collection and a page template, and
  \<^verbatim>\<open>hero\<close> a fragment and a fragment composition.\<close>

theorem directory_with_two_markers_witness:
  "snd (getProjectContent demo ''proj'') = Inr demo_project \<and>
   \<not> has_special (SrcOf ''proj'') \<and>
   ''cards'' \<in> set (glob_star demo (src_dir demo ''proj'')) \<and>
   parsed demo (src_dir demo ''proj'' @ [''cards'']) ''collection.json'' \<noteq> None \<and>
   parsed demo (src_dir demo ''proj'' @ [''cards'']) ''page-template.json'' \<noteq> None \<and>
   (\<exists>c \<in> set (collections demo_project). ICollection.slug c = ''cards'') \<and>
   (\<exists>t \<in> set (pageTemplates demo_project). IPageTemplate.slug t = ''cards'' \<and>
      pageTemplateDefinitionPath (IPageTemplate.metadata t) =
        src_dir demo ''proj'' @ [''cards'', ''page-definition.json'']) \<and>
   valid_dirs demo (SrcOf ''proj'') ''collection.json'' = [cards] \<and>
   collections demo_project = [cards_collection] \<and>
   \<not> has_special (Dir cards) \<and>
   ''hero'' \<in> set (glob_star demo cards) \<and>
   parsed demo (cards @ [''hero'']) ''fragment.json'' \<noteq> None \<and>
   parsed demo (cards @ [''hero'']) ''fragment-composition.json'' \<noteq> None \<and>
   (\<exists>f \<in> set (fragments cards_collection). IFragment.slug f = ''hero'') \<and>
   (\<exists>g \<in> set (fragmentCompositions cards_collection).
      IFragmentComposition.slug g = ''hero'')"
proof -
  have s: "\<not> has_special (SrcOf ''proj'')"
    and n: "''cards'' \<in> set (glob_star demo (src_dir demo ''proj''))"
    and both: "parsed demo (src_dir demo ''proj'' @ [''cards'']) ''collection.json'' \<noteq> None \<and>
      parsed demo (src_dir demo ''proj'' @ [''cards'']) ''page-template.json'' \<noteq> None"
    by (simp_all add: special_chars_def parsed_def src_dir_def path_resolve_def
          apply_segment_def demo_simps)
  have vd: "valid_dirs demo (SrcOf ''proj'') ''collection.json'' = [cards]"
    and cs: "collections demo_project = [cards_collection]"
    by (simp_all add: valid_dirs_def matched_def glob_matches_def special_chars_def
          parsed_def src_dir_def path_resolve_def apply_segment_def demo_project_def
          demo_simps)
  have s': "\<not> has_special (Dir cards)"
    and k: "''hero'' \<in> set (glob_star demo cards)"
    and inner: "parsed demo (cards @ [''hero'']) ''fragment.json'' \<noteq> None \<and>
      parsed demo (cards @ [''hero'']) ''fragment-composition.json'' \<noteq> None"
    by (simp_all add: special_chars_def parsed_def demo_simps)
  note t = directory_with_two_markers [OF demo_run]
  from t s n both
  have 1: "(\<exists>c \<in> set (collections demo_project). ICollection.slug c = ''cards'') \<and>
   (\<exists>t \<in> set (pageTemplates demo_project). IPageTemplate.slug t = ''cards'' \<and>
      pageTemplateDefinitionPath (IPageTemplate.metadata t) =
        src_dir demo ''proj'' @ [''cards'', ''page-definition.json''])"
    by blast
  from t have "list_all2
           (\<lambda>d c.
              (\<not> has_special (Dir d) \<longrightarrow>
                 (\<forall>k \<in> set (glob_star demo d).
                    parsed demo (d @ [k]) ''fragment.json'' \<noteq> None \<and>
                    parsed demo (d @ [k]) ''fragment-composition.json'' \<noteq> None \<longrightarrow>
                    (\<exists>f \<in> set (fragments c). IFragment.slug f = k) \<and>
                    (\<exists>g \<in> set (fragmentCompositions c).
                       IFragmentComposition.slug g = k))))
           [cards] [cards_collection]"
    unfolding vd cs by (elim conjE, elim list_all2_mono) blast
  with s' k inner
  have 2: "(\<exists>f \<in> set (fragments cards_collection). IFragment.slug f = ''hero'') \<and>
   (\<exists>g \<in> set (fragmentCompositions cards_collection).
      IFragmentComposition.slug g = ''hero'')"
    by simp
  from 1 2 s n both vd cs s' k inner demo_run show ?thesis
    by blast
qed

end
